theory Spec2Isabelle
  imports Complex_Main "HOL-Library.Multiset"
begin

section \<open>The Addlee matching engine (src/lib/matching-engine.js)\<close>

text \<open>
  The engine pairs creator profiles with hotel profiles.  Each profile is flattened into
  a text, the texts are turned into TF-IDF vectors over a shared corpus, every
  creator/hotel pair is scored by cosine similarity blended with a tag overlap, and the
  pairs are returned best first.

  Conventions of the embedding.
  \<^item> A JavaScript number is a real number or \<open>NaN\<close>.  The engine is given twice.  The
    first part (\<open>tokenize\<close> to \<open>computeMatches\<close>) computes in exact arithmetic and reads a
    field of a profile through its default; the statements about it concern what no
    rounding changes: how many matches there are and in which order, which fields bear on
    a score, and scores that are exact in doubles as well.  The second part (the same
    names with the suffix \<open>_js\<close>) takes the arithmetic as a parameter, of which the
    rounding operations of IEEE-754 doubles are one instance, and makes a call on
    \<open>undefined\<close> an error; the statements about it hold under every arithmetic.
  \<^item> A string is a list of 8-bit characters, read as the code points U+0000 to U+00FF.
  \<^item> An object literal used as a dictionary is the list of its own properties in
    insertion order.  A read \<open>obj[key]\<close> looks at the own properties first and then at
    \<open>Object.prototype\<close>, as JavaScript does.  JavaScript enumerates own keys that are array
    indices ahead of the others; the engine only sums over enumerated keys or copies them
    one by one, and in exact arithmetic no score depends on their order
    (\<open>cosineSimilarity_reorder\<close>), so the first part keeps the order of insertion.  The
    second part keeps the order of enumeration.
  \<^item> Loops over arrays, sets and own keys are folds over lists.
\<close>

subsection \<open>JavaScript values\<close>

text \<open>
  The values that can sit in the dictionaries of the engine or come out of a property
  read.  \<open>NonNumeric\<close> stands for a function or object inherited from
  \<open>Object.prototype\<close> and for the strings made by appending to its text
  (\<open>Object + 1\<close> is the string \<open>function Object() { [native code] }1\<close>): such a value is
  truthy, converts to the number \<open>NaN\<close>, and \<open>+\<close> on it concatenates.
\<close>

datatype jsval = Undefined | NaN | Number real | NonNumeric

text \<open>Truthiness: \<open>undefined\<close>, \<open>NaN\<close> and \<open>0\<close> are falsy.\<close>

fun truthy :: "jsval \<Rightarrow> bool" where
  "truthy (Number r) = (r \<noteq> 0)"
| "truthy NonNumeric = True"
| "truthy Undefined = False"
| "truthy NaN = False"

text \<open>\<open>a || b\<close>\<close>

definition js_or :: "jsval \<Rightarrow> jsval \<Rightarrow> jsval" where
  "js_or a b = (if truthy a then a else b)"

text \<open>
  \<open>a + b\<close>: string concatenation as soon as one operand is a string or converts to one,
  numeric addition otherwise.
\<close>

fun js_plus :: "jsval \<Rightarrow> jsval \<Rightarrow> jsval" where
  "js_plus NonNumeric _ = NonNumeric"
| "js_plus _ NonNumeric = NonNumeric"
| "js_plus (Number a) (Number b) = Number (a + b)"
| "js_plus _ _ = NaN"

text \<open>\<open>a * b\<close>, \<open>a - b\<close> and \<open>a / b\<close> convert both operands to numbers.\<close>

fun js_times :: "jsval \<Rightarrow> jsval \<Rightarrow> jsval" where
  "js_times (Number a) (Number b) = Number (a * b)"
| "js_times _ _ = NaN"

fun js_minus :: "jsval \<Rightarrow> jsval \<Rightarrow> jsval" where
  "js_minus (Number a) (Number b) = Number (a - b)"
| "js_minus _ _ = NaN"

text \<open>
  Division.  JavaScript yields an infinity (or \<open>NaN\<close> for \<open>0 / 0\<close>) when the divisor is
  zero; the model has no infinities and answers \<open>NaN\<close> there.  No division of the engine
  has a zero divisor: the divisors are a token count that \<open>|| 1\<close> keeps positive, a
  document count that is at least 1, and a magnitude tested against 0 first.
\<close>

fun js_div :: "jsval \<Rightarrow> jsval \<Rightarrow> jsval" where
  "js_div (Number a) (Number b) = (if b = 0 then NaN else Number (a / b))"
| "js_div _ _ = NaN"

text \<open>
  \<open>Math.log\<close>, \<open>Math.sqrt\<close>, \<open>Math.round\<close> and \<open>Math.min\<close>.  \<open>Math.log(0)\<close> is
  \<open>-Infinity\<close> in JavaScript and \<open>NaN\<close> here; the engine takes the logarithm of a
  quotient of positive counts only.  \<open>Math.round\<close> rounds a tie towards \<open>+\<infinity>\<close>, which is
  \<^const>\<open>round\<close>.
\<close>

fun Math_log :: "jsval \<Rightarrow> jsval" where
  "Math_log (Number x) = (if 0 < x then Number (ln x) else NaN)"
| "Math_log _ = NaN"

fun Math_sqrt :: "jsval \<Rightarrow> jsval" where
  "Math_sqrt (Number x) = (if 0 \<le> x then Number (sqrt x) else NaN)"
| "Math_sqrt _ = NaN"

fun Math_round :: "jsval \<Rightarrow> jsval" where
  "Math_round (Number x) = Number (of_int (round x))"
| "Math_round _ = NaN"

fun Math_min :: "jsval \<Rightarrow> jsval \<Rightarrow> jsval" where
  "Math_min (Number a) (Number b) = Number (min a b)"
| "Math_min _ _ = NaN"

subsection \<open>Objects used as dictionaries\<close>

type_synonym jsobject = "(string \<times> jsval) list"

text \<open>
  The property names every object inherits from \<open>Object.prototype\<close>.  Each of them reads
  as a function (or, for \<open>__proto__\<close>, as the prototype object) on an object that does
  not own the key.
\<close>

definition objectPrototypeKeys :: "string list" where
  "objectPrototypeKeys =
     [''constructor'', ''hasOwnProperty'', ''isPrototypeOf'', ''propertyIsEnumerable'',
      ''toLocaleString'', ''toString'', ''valueOf'', ''__proto__'',
      ''__defineGetter__'', ''__defineSetter__'', ''__lookupGetter__'', ''__lookupSetter__'']"

text \<open>\<open>obj[key]\<close> as a read: own property, else inherited property, else \<open>undefined\<close>.\<close>

definition js_get :: "jsobject \<Rightarrow> string \<Rightarrow> jsval" where
  "js_get obj key =
     (case map_of obj key of
        Some v \<Rightarrow> v
      | None \<Rightarrow> if key \<in> set objectPrototypeKeys then NonNumeric else Undefined)"

text \<open>
  \<open>obj[key] = v\<close>: an own property keeps its place, a new one goes last.  (The engine
  only assigns under keys that are tokens, never under \<open>__proto__\<close>.)
\<close>

fun js_set :: "jsobject \<Rightarrow> string \<Rightarrow> jsval \<Rightarrow> jsobject" where
  "js_set [] key v = [(key, v)]"
| "js_set ((k, w) # obj) key v =
     (if k = key then (k, v) # obj else (k, w) # js_set obj key v)"

text \<open>\<open>new Set(xs)\<close>: the elements of \<open>xs\<close> in order of first occurrence.\<close>

definition set_add :: "'a list \<Rightarrow> 'a \<Rightarrow> 'a list" where
  "set_add s x = (if x \<in> set s then s else s @ [x])"

definition new_Set :: "'a list \<Rightarrow> 'a list" where
  "new_Set xs = foldl set_add [] xs"

subsection \<open>Strings\<close>

text \<open>
  \<open>String.prototype.toLowerCase\<close> on the code points below U+0100: the letters A to Z
  and the accented capitals U+00C0 to U+00DE (but not the multiplication sign U+00D7)
  move up by 32.
\<close>

definition lowerChar :: "char \<Rightarrow> char" where
  "lowerChar c =
     (let n = (of_char c :: nat) in
      if (65 \<le> n \<and> n \<le> 90) \<or> (192 \<le> n \<and> n \<le> 222 \<and> n \<noteq> 215)
      then char_of (n + 32) else c)"

definition toLowerCase :: "string \<Rightarrow> string" where
  "toLowerCase s = map lowerChar s"

text \<open>
  The class \<open>\s\<close> of a regular expression, below U+0100: tab, line feed, vertical tab,
  form feed, carriage return, space and the no-break space.
\<close>

definition isSpace :: "char \<Rightarrow> bool" where
  "isSpace c = ((of_char c :: nat) \<in> {9, 10, 11, 12, 13, 32, 160})"

text \<open>The class \<open>[a-z0-9]\<close>.\<close>

definition isAlnum :: "char \<Rightarrow> bool" where
  "isAlnum c =
     (let n = (of_char c :: nat) in (97 \<le> n \<and> n \<le> 122) \<or> (48 \<le> n \<and> n \<le> 57))"

text \<open>
  \<open>s.split(/\s+/)\<close>: the pieces between maximal runs of white space.  The flag says
  that the previous character was white space.  White space at either end leaves an
  empty piece there, and the empty string splits into one empty piece.
\<close>

fun splitSpaces :: "bool \<Rightarrow> string \<Rightarrow> string list" where
  "splitSpaces _ [] = [[]]"
| "splitSpaces prev (c # cs) =
     (if isSpace c then (if prev then splitSpaces True cs else [] # splitSpaces True cs)
      else (case splitSpaces False cs of
              w # ws \<Rightarrow> (c # w) # ws
            | [] \<Rightarrow> [[c]]))"

text \<open>\<open>parts.join(sep)\<close>\<close>

fun join :: "string \<Rightarrow> string list \<Rightarrow> string" where
  "join sep [] = []"
| "join sep [x] = x"
| "join sep (x # y # ys) = x @ sep @ join sep (y # ys)"

subsection \<open>Text vectorizer\<close>

text \<open>
  \<open>tokenize\<close>: lower-case, delete every character outside \<open>[a-z0-9\s]\<close>, split on white
  space, keep the words of more than one character.
\<close>

definition tokenize :: "string \<Rightarrow> string list" where
  "tokenize text' =
     filter (\<lambda>w. length w > 1)
       (splitSpaces False (filter (\<lambda>c. isAlnum c \<or> isSpace c) (toLowerCase text')))"

text \<open>The counting statement \<open>obj[key] = (obj[key] || 0) + 1\<close> of both frequency loops.\<close>

definition increment :: "jsobject \<Rightarrow> string \<Rightarrow> jsobject" where
  "increment obj key = js_set obj key (js_plus (js_or (js_get obj key) (Number 0)) (Number 1))"

text \<open>
  \<open>termFrequency\<close>: count every token, then divide every count by the number of tokens
  (\<open>tokens.length || 1\<close>).
\<close>

definition termFrequency :: "string list \<Rightarrow> jsobject" where
  "termFrequency tokens =
     (let tf = foldl increment [] tokens;
          total = (if length tokens = 0 then 1 else length tokens)
      in map (\<lambda>(key, v). (key, js_div v (Number (real total)))) tf)"

text \<open>
  \<open>inverseDocumentFrequency\<close>: count for every word the documents that contain it, then
  replace every count \<open>c\<close> by \<open>Math.log(n / c) + 1\<close>.
\<close>

definition inverseDocumentFrequency :: "string list \<Rightarrow> jsobject" where
  "inverseDocumentFrequency documents =
     (let n = length documents;
          idf = foldl (\<lambda>idf doc. foldl increment idf (new_Set (tokenize doc))) [] documents
      in map (\<lambda>(word, c). (word, js_plus (Math_log (js_div (Number (real n)) c)) (Number 1))) idf)"

text \<open>
  \<open>tfidfVector\<close>: for every word of the term frequencies whose idf is truthy, the
  product of the two.
\<close>

definition tfidfVector :: "string \<Rightarrow> jsobject \<Rightarrow> jsobject" where
  "tfidfVector text' idf =
     (let tokens = tokenize text';
          tf = termFrequency tokens
      in foldl (\<lambda>vector (word, f).
                  if truthy (js_get idf word)
                  then js_set vector word (js_times f (js_get idf word))
                  else vector)
           [] tf)"

subsection \<open>Similarity scorer\<close>

text \<open>
  \<open>cosineSimilarity\<close>: one pass over the union of the own keys accumulates the dot
  product and the two squared magnitudes; the quotient is guarded by a test of the
  magnitude against 0.
\<close>

definition cosineStep :: "jsobject \<Rightarrow> jsobject \<Rightarrow> jsval \<times> jsval \<times> jsval \<Rightarrow> string
    \<Rightarrow> jsval \<times> jsval \<times> jsval" where
  "cosineStep vecA vecB acc key =
     (case acc of (dot, magA, magB) \<Rightarrow>
        let a = js_or (js_get vecA key) (Number 0);
            b = js_or (js_get vecB key) (Number 0)
        in (js_plus dot (js_times a b), js_plus magA (js_times a a), js_plus magB (js_times b b)))"

definition cosineSimilarity :: "jsobject \<Rightarrow> jsobject \<Rightarrow> jsval" where
  "cosineSimilarity vecA vecB =
     (let allKeys = new_Set (map fst vecA @ map fst vecB)
      in case foldl (cosineStep vecA vecB) (Number 0, Number 0, Number 0) allKeys of
           (dot, magA, magB) \<Rightarrow>
             let magnitude = js_times (Math_sqrt magA) (Math_sqrt magB)
             in if magnitude = Number 0 then Number 0 else js_div dot magnitude)"

text \<open>
  \<open>tagOverlapScore\<close>: the two tag lists as sets of lower-cased strings; the size of the
  intersection over the size of the union, and 0 for an empty union.  Only counts are
  divided here, so the result is a number.
\<close>

definition tagOverlapScore :: "string list \<Rightarrow> string list \<Rightarrow> real" where
  "tagOverlapScore tagsA tagsB =
     (let setA = new_Set (map toLowerCase tagsA);
          setB = new_Set (map toLowerCase tagsB);
          overlap = length (filter (\<lambda>tag. tag \<in> set setB) setA);
          union = length (new_Set (setA @ setB))
      in if union = 0 then 0 else real overlap / real union)"

subsection \<open>Profiles\<close>

text \<open>
  A profile as the engine reads it.  Every field may be absent (\<open>None\<close>); the fields
  \<open>id\<close>, \<open>followers\<close>, \<open>avatar\<close> and \<open>color\<close> of the sample data are never read by the
  engine and are left out.
\<close>

record profile =
  name :: "string option"
  description :: "string option"
  tags :: "string list option"
  niche :: "string option"
  location :: "string option"
  type' :: "string option"
  engagement :: "string option"
  rating :: "string option"
  collabs :: "string option"

text \<open>
  \<open>field || ''\<close> and \<open>field || []\<close>: an absent field and an empty one both give the
  empty value.  A method call or a spread on \<open>undefined\<close> throws a \<open>TypeError\<close>; the engine
  calls \<open>toLowerCase\<close>, \<open>map\<close> and \<open>join\<close> and spreads only values that went through
  one of these defaults, which the result types \<open>string\<close> and \<open>string list\<close> record.
  The second part below has the error as a value.
\<close>

definition orEmpty :: "string option \<Rightarrow> string" where
  "orEmpty field = (case field of None \<Rightarrow> [] | Some s \<Rightarrow> s)"

definition orNil :: "string list option \<Rightarrow> string list" where
  "orNil field = (case field of None \<Rightarrow> [] | Some ts \<Rightarrow> ts)"

text \<open>\<open>buildProfileText\<close>: name, description, every tag, niche, location and type,
  joined by single spaces.\<close>

definition buildProfileText :: "profile \<Rightarrow> string" where
  "buildProfileText p =
     join '' ''
       ([orEmpty (name p), orEmpty (description p)] @ orNil (tags p) @
        [orEmpty (niche p), orEmpty (location p), orEmpty (type' p)])"

subsection \<open>Explanations\<close>

text \<open>
  \<open>parseFloat\<close>: skip leading white space, then read the longest prefix that is a
  decimal literal: an optional sign, then \<open>Infinity\<close> or digits with an optional
  fraction and an optional exponent.
\<close>

datatype parsed = NotANumber | Finite real | Infinite bool

definition isDigit :: "char \<Rightarrow> bool" where
  "isDigit c = (let n = (of_char c :: nat) in 48 \<le> n \<and> n \<le> 57)"

definition digitsValue :: "string \<Rightarrow> nat" where
  "digitsValue ds = foldl (\<lambda>n c. 10 * n + ((of_char c :: nat) - 48)) 0 ds"

text \<open>The exponent part at the head of \<open>s\<close>, if it is complete; 0 otherwise.\<close>

definition exponentPart :: "string \<Rightarrow> int" where
  "exponentPart s =
     (case s of
        [] \<Rightarrow> 0
      | c # r \<Rightarrow>
          if c = CHR ''e'' \<or> c = CHR ''E'' then
            (case r of
               [] \<Rightarrow> 0
             | d # r' \<Rightarrow>
                 if d = CHR ''-'' then
                   (if takeWhile isDigit r' = [] then 0
                    else - int (digitsValue (takeWhile isDigit r')))
                 else if d = CHR ''+'' then int (digitsValue (takeWhile isDigit r'))
                 else int (digitsValue (takeWhile isDigit r)))
          else 0)"

definition scale10 :: "real \<Rightarrow> int \<Rightarrow> real" where
  "scale10 m e = (if 0 \<le> e then m * 10 ^ nat e else m / 10 ^ nat (- e))"

definition unsignedLiteral :: "string \<Rightarrow> real option" where
  "unsignedLiteral s =
     (let ds1 = takeWhile isDigit s; r1 = dropWhile isDigit s
      in case r1 of
           c # r \<Rightarrow>
             if c = CHR ''.'' then
               (let ds2 = takeWhile isDigit r; r2 = dropWhile isDigit r
                in if ds1 = [] \<and> ds2 = [] then None
                   else Some (scale10
                          (real (digitsValue ds1) + real (digitsValue ds2) / 10 ^ length ds2)
                          (exponentPart r2)))
             else if ds1 = [] then None
             else Some (scale10 (real (digitsValue ds1)) (exponentPart r1))
         | [] \<Rightarrow> if ds1 = [] then None else Some (real (digitsValue ds1)))"

definition parseFloat :: "string \<Rightarrow> parsed" where
  "parseFloat s =
     (let s1 = dropWhile isSpace s;
          negative = (case s1 of c # _ \<Rightarrow> c = CHR ''-'' | [] \<Rightarrow> False);
          s2 = (case s1 of c # r \<Rightarrow> if c = CHR ''-'' \<or> c = CHR ''+'' then r else s1 | [] \<Rightarrow> s1)
      in if take 8 s2 = ''Infinity'' then Infinite (\<not> negative)
         else (case unsignedLiteral s2 of
                 None \<Rightarrow> NotANumber
               | Some v \<Rightarrow> Finite (if negative then - v else v)))"

text \<open>\<open>x > bound\<close> for a parsed number and for a value; a comparison with \<open>NaN\<close> is false.\<close>

fun parsedGreater :: "parsed \<Rightarrow> real \<Rightarrow> bool" where
  "parsedGreater (Finite v) bound = (bound < v)"
| "parsedGreater (Infinite positive) bound = positive"
| "parsedGreater NotANumber bound = False"

fun js_greater :: "jsval \<Rightarrow> real \<Rightarrow> bool" where
  "js_greater (Number v) bound = (bound < v)"
| "js_greater _ bound = False"

text \<open>A field inside a template literal: an absent field prints as \<open>undefined\<close>.\<close>

definition template :: "string option \<Rightarrow> string" where
  "template field = (case field of None \<Rightarrow> ''undefined'' | Some s \<Rightarrow> s)"

text \<open>
  \<open>generateExplanation\<close>: the shared tags, a sentence chosen by the text similarity, a
  sentence for an engagement above 4, and a fallback when none of them applied.
\<close>

definition generateExplanation :: "profile \<Rightarrow> profile \<Rightarrow> jsval \<Rightarrow> real \<Rightarrow> string" where
  "generateExplanation creator' hotel' textSim tagScore =
     (let creatorTags = new_Set (map toLowerCase (orNil (tags creator')));
          hotelTags = new_Set (map toLowerCase (orNil (tags hotel')));
          shared = filter (\<lambda>t. t \<in> set hotelTags) creatorTags;
          parts1 = (if length shared > 0
                    then [''Both share interests in '' @ join '', '' shared] else []);
          parts2 =
            (if js_greater textSim 0.3
             then parts1 @ [template (name creator') @ [CHR 0x27] @
                    ''s content style aligns strongly with '' @ template (name hotel') @
                    [CHR 0x27] @ ''s brand'']
             else if js_greater textSim 0.15
             then parts1 @ [template (name creator') @ [CHR 0x27] @
                    ''s profile shows good alignment with '' @ template (name hotel') @
                    [CHR 0x27] @ ''s target audience'']
             else parts1);
          parts3 =
            (if orEmpty (engagement creator') \<noteq> [] \<and>
                parsedGreater (parseFloat (orEmpty (engagement creator'))) 4
             then parts2 @ [''High engagement rate ('' @ template (engagement creator') @
                    '') suggests strong audience connection'']
             else parts2);
          parts4 =
            (if length parts3 = 0
             then [template (name creator') @ [CHR 0x27] @
                    ''s creative approach could bring a fresh perspective to '' @
                    template (name hotel') @ [CHR 0x27] @ ''s content strategy'']
             else parts3)
      in join ''. '' parts4 @ ''.'')"

subsection \<open>Matcher\<close>

record match_result =
  creator :: profile
  hotel :: profile
  score :: jsval
  textSimilarity :: jsval
  tagOverlap :: jsval
  explanation :: string

text \<open>The body of the inner loop: the match of one creator with one hotel, each given
  with its vector.\<close>

definition matchOf :: "profile \<times> jsobject \<Rightarrow> profile \<times> jsobject \<Rightarrow> match_result" where
  "matchOf creator' hotel' =
     (let textSim = cosineSimilarity (snd creator') (snd hotel');
          tagScore = tagOverlapScore (orNil (tags (fst creator'))) (orNil (tags (fst hotel')));
          score' = js_plus (js_times textSim (Number 0.6)) (js_times (Number tagScore) (Number 0.4));
          percentage =
            Math_min (Math_round (js_plus (js_times score' (Number 100)) (Number 50))) (Number 99)
      in \<lparr> creator = fst creator', hotel = fst hotel', score = percentage,
           textSimilarity = Math_round (js_times textSim (Number 100)),
           tagOverlap = Math_round (js_times (Number tagScore) (Number 100)),
           explanation = generateExplanation (fst creator') (fst hotel') textSim tagScore \<rparr>)"

text \<open>
  \<open>matches.sort((a, b) => b.score - a.score)\<close>.  \<open>Array.prototype.sort\<close> is stable
  (ECMAScript 2019), and a comparison result \<open>NaN\<close> counts as 0.  For a consistent
  comparator the outcome of a stable sort is determined, so insertion from the right
  models it.
\<close>

definition sortCompare :: "match_result \<Rightarrow> match_result \<Rightarrow> real" where
  "sortCompare a b = (case js_minus (score b) (score a) of Number v \<Rightarrow> v | _ \<Rightarrow> 0)"

fun insertMatch :: "match_result \<Rightarrow> match_result list \<Rightarrow> match_result list" where
  "insertMatch x [] = [x]"
| "insertMatch x (y # ys) =
     (if sortCompare x y \<le> 0 then x # y # ys else y # insertMatch x ys)"

definition sortMatches :: "match_result list \<Rightarrow> match_result list" where
  "sortMatches ms = foldr insertMatch ms []"

text \<open>The array \<open>matches\<close> before it is sorted: every creator, in order, with every
  hotel, in order.\<close>

definition allMatches :: "profile list \<Rightarrow> profile list \<Rightarrow> match_result list" where
  "allMatches creators hotels =
     (let allProfiles = creators @ hotels;
          allTexts = map buildProfileText allProfiles;
          idf = inverseDocumentFrequency allTexts;
          creatorVectors = map (\<lambda>c. (c, tfidfVector (buildProfileText c) idf)) creators;
          hotelVectors = map (\<lambda>h. (h, tfidfVector (buildProfileText h) idf)) hotels
      in concat (map (\<lambda>creator'. map (\<lambda>hotel'. matchOf creator' hotel') hotelVectors)
                   creatorVectors))"

definition computeMatches :: "profile list \<Rightarrow> profile list \<Rightarrow> match_result list" where
  "computeMatches creators hotels = sortMatches (allMatches creators hotels)"

subsection \<open>The engine on rounded numbers and on absent fields\<close>

text \<open>
  The definitions above compute in exact arithmetic and read an absent field through its
  default.  The definitions of this part, with the suffix \<open>_js\<close>, repeat the engine from
  \<open>termFrequency\<close> to \<open>computeMatches\<close> with both left open.  The arithmetic is a
  parameter: the operations of IEEE-754 doubles, each of which rounds its exact result to
  a double, are one arithmetic as long as no result overflows, and exact arithmetic is
  another.  Counts, lengths and the literals 0, 1, 50, 99 and 100 are doubles, and
  \<open>Math.round\<close>, \<open>Math.min\<close> and comparisons are exact on doubles, so they are as above.  And
  a call on \<open>undefined\<close> is an error, so that a result is \<open>Inr\<close> of a value or \<open>Inl\<close> of an
  error.
\<close>

text \<open>
  An arithmetic: the result of \<open>+\<close>, \<open>*\<close> and \<open>/\<close> on two numbers, of \<open>Math.sqrt\<close> and
  \<open>Math.log\<close> on one, and the number that a decimal literal of the source stands for.
\<close>

record arithmetic =
  ar_add :: "real \<Rightarrow> real \<Rightarrow> real"
  ar_mul :: "real \<Rightarrow> real \<Rightarrow> real"
  ar_div :: "real \<Rightarrow> real \<Rightarrow> real"
  ar_sqrt :: "real \<Rightarrow> real"
  ar_log :: "real \<Rightarrow> real"
  ar_lit :: "real \<Rightarrow> real"

text \<open>Exact arithmetic.\<close>

definition exact :: arithmetic where
  "exact = \<lparr> ar_add = (+), ar_mul = (*), ar_div = (/), ar_sqrt = sqrt, ar_log = ln,
             ar_lit = (\<lambda>x. x) \<rparr>"

text \<open>
  The operators on values, as in the first part: \<open>+\<close> concatenates as soon as one operand
  is a string, the others convert to numbers, and a division by zero, a logarithm of a
  number that is not positive and a root of a negative number answer \<open>NaN\<close>.
\<close>

fun plus_js :: "arithmetic \<Rightarrow> jsval \<Rightarrow> jsval \<Rightarrow> jsval" where
  "plus_js ar NonNumeric _ = NonNumeric"
| "plus_js ar _ NonNumeric = NonNumeric"
| "plus_js ar (Number a) (Number b) = Number (ar_add ar a b)"
| "plus_js ar _ _ = NaN"

fun times_js :: "arithmetic \<Rightarrow> jsval \<Rightarrow> jsval \<Rightarrow> jsval" where
  "times_js ar (Number a) (Number b) = Number (ar_mul ar a b)"
| "times_js ar _ _ = NaN"

fun div_js :: "arithmetic \<Rightarrow> jsval \<Rightarrow> jsval \<Rightarrow> jsval" where
  "div_js ar (Number a) (Number b) = (if b = 0 then NaN else Number (ar_div ar a b))"
| "div_js ar _ _ = NaN"

fun log_js :: "arithmetic \<Rightarrow> jsval \<Rightarrow> jsval" where
  "log_js ar (Number x) = (if 0 < x then Number (ar_log ar x) else NaN)"
| "log_js ar _ = NaN"

fun sqrt_js :: "arithmetic \<Rightarrow> jsval \<Rightarrow> jsval" where
  "sqrt_js ar (Number x) = (if 0 \<le> x then Number (ar_sqrt ar x) else NaN)"
| "sqrt_js ar _ = NaN"

text \<open>
  JavaScript enumerates the own keys of an object with the array indices first, in
  ascending order, and the other keys after them in the order of their creation.  An array
  index is the canonical decimal form of an integer below \<open>2\<^sup>3\<^sup>2 - 1\<close>.  With an arithmetic
  that rounds, the order of a sum matters, so the objects of this part are kept in the
  order of enumeration: an assignment to a new key that is an array index puts it in its
  place among the indices.
\<close>

definition arrayIndex :: "string \<Rightarrow> nat option" where
  "arrayIndex key =
     (if key \<noteq> [] \<and> list_all isDigit key \<and> (key = ''0'' \<or> hd key \<noteq> CHR ''0'') \<and>
         digitsValue key < 4294967295
      then Some (digitsValue key) else None)"

fun place :: "nat \<Rightarrow> string \<Rightarrow> jsval \<Rightarrow> jsobject \<Rightarrow> jsobject" where
  "place i key v [] = [(key, v)]"
| "place i key v ((k, w) # obj) =
     (case arrayIndex k of
        Some j \<Rightarrow> if j < i then (k, w) # place i key v obj else (key, v) # (k, w) # obj
      | None \<Rightarrow> (key, v) # (k, w) # obj)"

definition assign :: "jsobject \<Rightarrow> string \<Rightarrow> jsval \<Rightarrow> jsobject" where
  "assign obj key v =
     (if key \<in> fst ` set obj then js_set obj key v
      else (case arrayIndex key of
              Some i \<Rightarrow> place i key v obj
            | None \<Rightarrow> obj @ [(key, v)]))"

text \<open>The vectorizer and the cosine similarity, line by line as in the first part.\<close>

definition increment_js :: "arithmetic \<Rightarrow> jsobject \<Rightarrow> string \<Rightarrow> jsobject" where
  "increment_js ar obj key =
     assign obj key (plus_js ar (js_or (js_get obj key) (Number 0)) (Number 1))"

definition termFrequency_js :: "arithmetic \<Rightarrow> string list \<Rightarrow> jsobject" where
  "termFrequency_js ar tokens =
     (let tf = foldl (increment_js ar) [] tokens;
          total = (if length tokens = 0 then 1 else length tokens)
      in map (\<lambda>(key, v). (key, div_js ar v (Number (real total)))) tf)"

definition inverseDocumentFrequency_js :: "arithmetic \<Rightarrow> string list \<Rightarrow> jsobject" where
  "inverseDocumentFrequency_js ar documents =
     (let n = length documents;
          idf = foldl (\<lambda>idf doc. foldl (increment_js ar) idf (new_Set (tokenize doc))) [] documents
      in map (\<lambda>(word, c). (word, plus_js ar (log_js ar (div_js ar (Number (real n)) c)) (Number 1)))
           idf)"

definition tfidfVector_js :: "arithmetic \<Rightarrow> string \<Rightarrow> jsobject \<Rightarrow> jsobject" where
  "tfidfVector_js ar text' idf =
     (let tokens = tokenize text';
          tf = termFrequency_js ar tokens
      in foldl (\<lambda>vector (word, f).
                  if truthy (js_get idf word)
                  then assign vector word (times_js ar f (js_get idf word))
                  else vector)
           [] tf)"

definition cosineStep_js :: "arithmetic \<Rightarrow> jsobject \<Rightarrow> jsobject \<Rightarrow> jsval \<times> jsval \<times> jsval
    \<Rightarrow> string \<Rightarrow> jsval \<times> jsval \<times> jsval" where
  "cosineStep_js ar vecA vecB acc key =
     (case acc of (dot, magA, magB) \<Rightarrow>
        let a = js_or (js_get vecA key) (Number 0);
            b = js_or (js_get vecB key) (Number 0)
        in (plus_js ar dot (times_js ar a b), plus_js ar magA (times_js ar a a),
            plus_js ar magB (times_js ar b b)))"

definition cosineSimilarity_js :: "arithmetic \<Rightarrow> jsobject \<Rightarrow> jsobject \<Rightarrow> jsval" where
  "cosineSimilarity_js ar vecA vecB =
     (let allKeys = new_Set (map fst vecA @ map fst vecB)
      in case foldl (cosineStep_js ar vecA vecB) (Number 0, Number 0, Number 0) allKeys of
           (dot, magA, magB) \<Rightarrow>
             let magnitude = times_js ar (sqrt_js ar magA) (sqrt_js ar magB)
             in if magnitude = Number 0 then Number 0 else div_js ar dot magnitude)"

text \<open>
  A method call or a spread on \<open>undefined\<close> throws a \<open>TypeError\<close>.  The values that can be
  \<open>undefined\<close> at such a place are the fields of a profile; the texts handed to \<open>tokenize\<close>
  come out of \<open>join\<close> and are strings.
\<close>

datatype error = TypeError

text \<open>
  \<open>a || b\<close> on a field that holds a string or is absent, and on a field that holds an array
  or is absent: the empty string is falsy, every array is truthy.
\<close>

definition or_string :: "string option \<Rightarrow> string option \<Rightarrow> string option" where
  "or_string a b = (case a of None \<Rightarrow> b | Some s \<Rightarrow> if s = [] then b else Some s)"

definition or_array :: "'a list option \<Rightarrow> 'a list option \<Rightarrow> 'a list option" where
  "or_array a b = (case a of None \<Rightarrow> b | Some xs \<Rightarrow> Some xs)"

text \<open>\<open>[...xs]\<close> and \<open>xs.map(f)\<close>\<close>

definition spread :: "'a list option \<Rightarrow> error + 'a list" where
  "spread xs = (case xs of None \<Rightarrow> Inl TypeError | Some ys \<Rightarrow> Inr ys)"

definition map_method :: "'a list option \<Rightarrow> ('a \<Rightarrow> 'b) \<Rightarrow> error + 'b list" where
  "map_method xs f = (case xs of None \<Rightarrow> Inl TypeError | Some ys \<Rightarrow> Inr (map f ys))"

text \<open>\<open>parts.join(sep)\<close> on an array that may hold \<open>undefined\<close>, which prints as the empty
  string.\<close>

definition join_js :: "string \<Rightarrow> string option list \<Rightarrow> string" where
  "join_js sep parts = join sep (map (\<lambda>part. case part of None \<Rightarrow> [] | Some s \<Rightarrow> s) parts)"

text \<open>\<open>xs.map(f)\<close> and a \<open>for\<close> loop that pushes \<open>f(x)\<close>, for a callback that may throw: the
  first error ends the call.\<close>

fun array_map :: "('a \<Rightarrow> error + 'b) \<Rightarrow> 'a list \<Rightarrow> error + 'b list" where
  "array_map f [] = Inr []"
| "array_map f (x # xs) =
     (case f x of
        Inl e \<Rightarrow> Inl e
      | Inr y \<Rightarrow> (case array_map f xs of Inl e \<Rightarrow> Inl e | Inr ys \<Rightarrow> Inr (y # ys)))"

text \<open>\<open>tagOverlapScore\<close>, which calls \<open>map\<close> on both of its arguments.\<close>

definition tagOverlapScore_js :: "arithmetic \<Rightarrow> string list option \<Rightarrow> string list option
    \<Rightarrow> error + real" where
  "tagOverlapScore_js ar tagsA tagsB =
     (case map_method tagsA toLowerCase of
        Inl e \<Rightarrow> Inl e
      | Inr lowerA \<Rightarrow>
          (case map_method tagsB toLowerCase of
             Inl e \<Rightarrow> Inl e
           | Inr lowerB \<Rightarrow>
               Inr (let setA = new_Set lowerA;
                        setB = new_Set lowerB;
                        overlap = length (filter (\<lambda>tag. tag \<in> set setB) setA);
                        union = length (new_Set (setA @ setB))
                    in if union = 0 then 0 else ar_div ar (real overlap) (real union))))"

text \<open>\<open>buildProfileText\<close>, which spreads \<open>profile.tags || []\<close>.\<close>

definition buildProfileText_js :: "profile \<Rightarrow> error + string" where
  "buildProfileText_js p =
     (case spread (or_array (tags p) (Some [])) of
        Inl e \<Rightarrow> Inl e
      | Inr ts \<Rightarrow>
          Inr (join_js '' ''
                 ([or_string (name p) (Some ''''), or_string (description p) (Some '''')] @
                  map Some ts @
                  [or_string (niche p) (Some ''''), or_string (location p) (Some ''''),
                   or_string (type' p) (Some '''')])))"

text \<open>\<open>parseFloat(s) > bound\<close>: the parsed literal is a number of the arithmetic.\<close>

fun parsedGreater_js :: "arithmetic \<Rightarrow> parsed \<Rightarrow> real \<Rightarrow> bool" where
  "parsedGreater_js ar (Finite v) bound = (bound < ar_lit ar v)"
| "parsedGreater_js ar (Infinite positive) bound = positive"
| "parsedGreater_js ar NotANumber bound = False"

text \<open>\<open>generateExplanation\<close>, which calls \<open>map\<close> on \<open>creator.tags || []\<close> and on
  \<open>hotel.tags || []\<close>.\<close>

definition generateExplanation_js :: "arithmetic \<Rightarrow> profile \<Rightarrow> profile \<Rightarrow> jsval \<Rightarrow> real
    \<Rightarrow> error + string" where
  "generateExplanation_js ar creator' hotel' textSim tagScore =
     (case map_method (or_array (tags creator') (Some [])) toLowerCase of
        Inl e \<Rightarrow> Inl e
      | Inr lowerC \<Rightarrow>
          (case map_method (or_array (tags hotel') (Some [])) toLowerCase of
             Inl e \<Rightarrow> Inl e
           | Inr lowerH \<Rightarrow>
               Inr (let creatorTags = new_Set lowerC;
                        hotelTags = new_Set lowerH;
                        shared = filter (\<lambda>t. t \<in> set hotelTags) creatorTags;
                        parts1 = (if length shared > 0
                                  then [''Both share interests in '' @ join '', '' shared] else []);
                        parts2 =
                          (if js_greater textSim (ar_lit ar 0.3)
                           then parts1 @ [template (name creator') @ [CHR 0x27] @
                                  ''s content style aligns strongly with '' @
                                  template (name hotel') @ [CHR 0x27] @ ''s brand'']
                           else if js_greater textSim (ar_lit ar 0.15)
                           then parts1 @ [template (name creator') @ [CHR 0x27] @
                                  ''s profile shows good alignment with '' @
                                  template (name hotel') @ [CHR 0x27] @ ''s target audience'']
                           else parts1);
                        parts3 =
                          (case engagement creator' of
                             None \<Rightarrow> parts2
                           | Some e \<Rightarrow>
                               if e \<noteq> [] \<and> parsedGreater_js ar (parseFloat e) 4
                               then parts2 @ [''High engagement rate ('' @ e @
                                      '') suggests strong audience connection'']
                               else parts2);
                        parts4 =
                          (if length parts3 = 0
                           then [template (name creator') @ [CHR 0x27] @
                                  ''s creative approach could bring a fresh perspective to '' @
                                  template (name hotel') @ [CHR 0x27] @ ''s content strategy'']
                           else parts3)
                    in join ''. '' parts4 @ ''.'')))"

text \<open>The body of the inner loop.\<close>

definition matchOf_js :: "arithmetic \<Rightarrow> profile \<times> jsobject \<Rightarrow> profile \<times> jsobject
    \<Rightarrow> error + match_result" where
  "matchOf_js ar creator' hotel' =
     (let textSim = cosineSimilarity_js ar (snd creator') (snd hotel')
      in case tagOverlapScore_js ar (or_array (tags (fst creator')) (Some []))
                (or_array (tags (fst hotel')) (Some [])) of
           Inl e \<Rightarrow> Inl e
         | Inr tagScore \<Rightarrow>
             let score' = plus_js ar (times_js ar textSim (Number (ar_lit ar 0.6)))
                            (times_js ar (Number tagScore) (Number (ar_lit ar 0.4)));
                 percentage =
                   Math_min (Math_round (plus_js ar (times_js ar score' (Number 100)) (Number 50)))
                     (Number 99)
             in case generateExplanation_js ar (fst creator') (fst hotel') textSim tagScore of
                  Inl e \<Rightarrow> Inl e
                | Inr explanation' \<Rightarrow>
                    Inr \<lparr> creator = fst creator', hotel = fst hotel', score = percentage,
                          textSimilarity = Math_round (times_js ar textSim (Number 100)),
                          tagOverlap = Math_round (times_js ar (Number tagScore) (Number 100)),
                          explanation = explanation' \<rparr>)"

text \<open>The callback of \<open>creators.map\<close> and \<open>hotels.map\<close>: a profile with its vector.\<close>

definition profileVector_js :: "arithmetic \<Rightarrow> jsobject \<Rightarrow> profile \<Rightarrow> error + profile \<times> jsobject" where
  "profileVector_js ar idf p =
     (case buildProfileText_js p of
        Inl e \<Rightarrow> Inl e
      | Inr text' \<Rightarrow> Inr (p, tfidfVector_js ar text' idf))"

text \<open>\<open>computeMatches\<close>: the texts, the idf table, the vectors, the matches in the order of
  the two nested loops, and the sort.  The comparator \<open>b.score - a.score\<close> only matters by
  its sign, which no rounding changes.\<close>

definition computeMatches_js :: "arithmetic \<Rightarrow> profile list \<Rightarrow> profile list
    \<Rightarrow> error + match_result list" where
  "computeMatches_js ar creators hotels =
     (let allProfiles = creators @ hotels
      in case array_map buildProfileText_js allProfiles of
           Inl e \<Rightarrow> Inl e
         | Inr allTexts \<Rightarrow>
             let idf = inverseDocumentFrequency_js ar allTexts
             in case array_map (profileVector_js ar idf) creators of
                  Inl e \<Rightarrow> Inl e
                | Inr creatorVectors \<Rightarrow>
                    (case array_map (profileVector_js ar idf) hotels of
                       Inl e \<Rightarrow> Inl e
                     | Inr hotelVectors \<Rightarrow>
                         (case array_map (\<lambda>(creator', hotel'). matchOf_js ar creator' hotel')
                                 (List.product creatorVectors hotelVectors) of
                            Inl e \<Rightarrow> Inl e
                          | Inr matches \<Rightarrow> Inr (sortMatches matches))))"

subsection \<open>Vocabulary of the statements\<close>

text \<open>The number an object holds under a key; 0 when the key is absent or holds no
  number.\<close>

definition weight :: "jsobject \<Rightarrow> string \<Rightarrow> real" where
  "weight obj key = (case map_of obj key of Some (Number r) \<Rightarrow> r | _ \<Rightarrow> 0)"

text \<open>The number of documents in which a word occurs as a token.\<close>

definition documentCount :: "string list \<Rightarrow> string \<Rightarrow> nat" where
  "documentCount documents word = length (filter (\<lambda>doc. word \<in> set (tokenize doc)) documents)"

text \<open>
  A counting object as the two frequency loops build it: a key that \<open>Object.prototype\<close>
  also defines holds a non-numeric value, every other key a positive count.
\<close>

definition counter :: "jsobject \<Rightarrow> bool" where
  "counter obj \<longleftrightarrow>
     distinct (map fst obj) \<and>
     (\<forall>(k, v) \<in> set obj.
        if k \<in> set objectPrototypeKeys then v = NonNumeric
        else \<exists>n. 0 < n \<and> v = Number (real (n::nat)))"

text \<open>
  A term vector: an object with distinct keys, none of them a property name of
  \<open>Object.prototype\<close>, that holds a non-negative number under every key.
\<close>

definition termVector :: "jsobject \<Rightarrow> bool" where
  "termVector vec \<longleftrightarrow>
     distinct (map fst vec) \<and>
     (\<forall>(k, v) \<in> set vec. k \<notin> set objectPrototypeKeys \<and> (\<exists>r. 0 \<le> r \<and> v = Number r))"

text \<open>The operand \<open>vec[key] || 0\<close> of the cosine loop.\<close>

definition entry :: "jsobject \<Rightarrow> string \<Rightarrow> jsval" where
  "entry vec key = js_or (js_get vec key) (Number 0)"

text \<open>The number a value holds, 0 for a value that is no number.\<close>

fun numberOf :: "jsval \<Rightarrow> real" where
  "numberOf (Number r) = r"
| "numberOf _ = 0"

text \<open>The Euclidean norm of the numbers an object holds.\<close>

definition euclideanNorm :: "jsobject \<Rightarrow> real" where
  "euclideanNorm vec = sqrt (\<Sum>(k, v) \<leftarrow> vec. (numberOf v)\<^sup>2)"

text \<open>The idf table of one call of \<open>computeMatches\<close>, and the two sub-scores of a pair
  under it.\<close>

definition corpusIdf :: "profile list \<Rightarrow> profile list \<Rightarrow> jsobject" where
  "corpusIdf creators hotels = inverseDocumentFrequency (map buildProfileText (creators @ hotels))"

definition textSimilarityOf :: "profile list \<Rightarrow> profile list \<Rightarrow> profile \<Rightarrow> profile \<Rightarrow> jsval" where
  "textSimilarityOf creators hotels c h =
     cosineSimilarity (tfidfVector (buildProfileText c) (corpusIdf creators hotels))
       (tfidfVector (buildProfileText h) (corpusIdf creators hotels))"

definition tagScoreOf :: "profile \<Rightarrow> profile \<Rightarrow> real" where
  "tagScoreOf c h = tagOverlapScore (orNil (tags c)) (orNil (tags h))"

text \<open>The same under an arithmetic.\<close>

definition corpusIdf_js :: "arithmetic \<Rightarrow> profile list \<Rightarrow> profile list \<Rightarrow> jsobject" where
  "corpusIdf_js ar creators hotels =
     inverseDocumentFrequency_js ar (map buildProfileText (creators @ hotels))"

definition textSimilarityOf_js :: "arithmetic \<Rightarrow> profile list \<Rightarrow> profile list \<Rightarrow> profile
    \<Rightarrow> profile \<Rightarrow> jsval" where
  "textSimilarityOf_js ar creators hotels c h =
     cosineSimilarity_js ar
       (tfidfVector_js ar (buildProfileText c) (corpusIdf_js ar creators hotels))
       (tfidfVector_js ar (buildProfileText h) (corpusIdf_js ar creators hotels))"

definition tagScoreOf_js :: "arithmetic \<Rightarrow> profile \<Rightarrow> profile \<Rightarrow> error + real" where
  "tagScoreOf_js ar c h =
     tagOverlapScore_js ar (or_array (tags c) (Some [])) (or_array (tags h) (Some []))"

text \<open>The profile with every field absent, from which the examples below are built.\<close>

definition blank :: profile where
  "blank = \<lparr> name = None, description = None, tags = None, niche = None, location = None,
             type' = None, engagement = None, rating = None, collabs = None \<rparr>"

text \<open>A profile with nothing but a description.\<close>

definition described :: "string \<Rightarrow> profile" where
  "described d = blank\<lparr>description := Some d\<rparr>"


text \<open>Two profiles that agree in every field but \<open>engagement\<close>, \<open>rating\<close> and \<open>collabs\<close>.\<close>

definition sameButDisplayFields :: "profile \<Rightarrow> profile \<Rightarrow> bool" where
  "sameButDisplayFields p q \<longleftrightarrow>
     q = p\<lparr>engagement := engagement q, rating := rating q, collabs := collabs q\<rparr>"

text \<open>Two profiles that agree in \<open>name\<close>, \<open>description\<close> and \<open>tags\<close>, whatever their
  \<open>niche\<close>, \<open>location\<close>, \<open>type\<close>, \<open>engagement\<close>, \<open>rating\<close> and \<open>collabs\<close>.\<close>

definition sameButAuxiliaryFields :: "profile \<Rightarrow> profile \<Rightarrow> bool" where
  "sameButAuxiliaryFields p q \<longleftrightarrow>
     name q = name p \<and> description q = description p \<and> tags q = tags p"

text \<open>The three scores of a match.\<close>

definition scores :: "match_result \<Rightarrow> jsval \<times> jsval \<times> jsval" where
  "scores m = (score m, textSimilarity m, tagOverlap m)"

section \<open>Properties\<close>

subsection \<open>Objects and sets\<close>

lemma map_of_js_set: "map_of (js_set obj key v) = (map_of obj)(key \<mapsto> v)"
  by (induction obj key v rule: js_set.induct) (auto simp: fun_eq_iff)

lemma keys_js_set:
  "map fst (js_set obj key v) = (if key \<in> fst ` set obj then map fst obj else map fst obj @ [key])"
  by (induction obj key v rule: js_set.induct) (auto simp: image_iff)

lemma distinct_js_set: "distinct (map fst obj) \<Longrightarrow> distinct (map fst (js_set obj key v))"
  by (simp add: keys_js_set)

lemma js_set_fresh: "key \<notin> fst ` set obj \<Longrightarrow> js_set obj key v = obj @ [(key, v)]"
  by (induction obj key v rule: js_set.induct) auto

lemma js_get_js_set:
  "js_get (js_set obj key v) k = (if k = key then v else js_get obj k)"
  by (simp add: js_get_def map_of_js_set)

lemma set_foldl_set_add: "set (foldl set_add s xs) = set s \<union> set xs"
  by (induction xs arbitrary: s) (auto simp: set_add_def)

lemma distinct_foldl_set_add: "distinct s \<Longrightarrow> distinct (foldl set_add s xs)"
  by (induction xs arbitrary: s) (auto simp: set_add_def)

lemma set_new_Set: "set (new_Set xs) = set xs"
  by (simp add: new_Set_def set_foldl_set_add)

lemma distinct_new_Set: "distinct (new_Set xs)"
  by (simp add: new_Set_def distinct_foldl_set_add)

subsection \<open>Tokens\<close>

lemma splitSpaces_nonempty: "splitSpaces b s \<noteq> []"
  by (induction b s rule: splitSpaces.induct) (auto split: list.splits)

lemma splitSpaces_chars:
  "w \<in> set (splitSpaces b s) \<Longrightarrow> set w \<subseteq> {c \<in> set s. \<not> isSpace c}"
proof (induction b s arbitrary: w rule: splitSpaces.induct)
  case (1 uu)
  then show ?case by simp
next
  case (2 prev d ds)
  show ?case
  proof (cases "isSpace d")
    case True
    with 2 show ?thesis by (cases prev) (auto split: if_splits)
  next
    case False
    obtain v vs where sp: "splitSpaces False ds = v # vs"
      using splitSpaces_nonempty by (cases "splitSpaces False ds") auto
    have "set v \<subseteq> {c \<in> set ds. \<not> isSpace c}"
      using "2.IH"(3)[OF False, of v] sp by simp
    moreover have "\<And>u. u \<in> set vs \<Longrightarrow> set u \<subseteq> {c \<in> set ds. \<not> isSpace c}"
      using "2.IH"(3)[OF False] sp by simp
    ultimately show ?thesis using False 2(4) sp by auto
  qed
qed

lemma token_chars:
  assumes "w \<in> set (tokenize t)" and "c \<in> set w"
  shows "isAlnum c"
proof -
  from assms have "c \<in> set (filter (\<lambda>c. isAlnum c \<or> isSpace c) (toLowerCase t)) \<and> \<not> isSpace c"
    unfolding tokenize_def by (auto dest!: splitSpaces_chars)
  then show ?thesis by auto
qed

lemma token_length: "w \<in> set (tokenize t) \<Longrightarrow> 1 < length w"
  by (simp add: tokenize_def)

lemma inherited_not_alnum:
  "k \<in> set objectPrototypeKeys \<Longrightarrow> k \<noteq> ''constructor'' \<Longrightarrow> \<exists>c\<in>set k. \<not> isAlnum c"
proof -
  have na: "\<not> isAlnum CHR ''P''" "\<not> isAlnum CHR ''O''" "\<not> isAlnum CHR ''L''"
       "\<not> isAlnum CHR ''S''" "\<not> isAlnum CHR ''_''" "\<not> isAlnum CHR ''I''"
    by (simp_all add: isAlnum_def)
  assume "k \<in> set objectPrototypeKeys" "k \<noteq> ''constructor''"
  then consider "k = ''hasOwnProperty''" | "k = ''isPrototypeOf''" | "k = ''propertyIsEnumerable''"
    | "k = ''toLocaleString''" | "k = ''toString''" | "k = ''valueOf''" | "k = ''__proto__''"
    | "k = ''__defineGetter__''" | "k = ''__defineSetter__''" | "k = ''__lookupGetter__''"
    | "k = ''__lookupSetter__''"
    unfolding objectPrototypeKeys_def by fastforce
  then show ?thesis
  proof cases
    case 1 then show ?thesis using na by (intro bexI[of _ "CHR ''O''"]) simp_all
  next
    case 2 then show ?thesis using na by (intro bexI[of _ "CHR ''P''"]) simp_all
  next
    case 3 then show ?thesis using na by (intro bexI[of _ "CHR ''I''"]) simp_all
  next
    case 4 then show ?thesis using na by (intro bexI[of _ "CHR ''L''"]) simp_all
  next
    case 5 then show ?thesis using na by (intro bexI[of _ "CHR ''S''"]) simp_all
  next
    case 6 then show ?thesis using na by (intro bexI[of _ "CHR ''O''"]) simp_all
  next
    case 7 then show ?thesis using na by (intro bexI[of _ "CHR ''_''"]) simp_all
  next
    case 8 then show ?thesis using na by (intro bexI[of _ "CHR ''_''"]) simp_all
  next
    case 9 then show ?thesis using na by (intro bexI[of _ "CHR ''_''"]) simp_all
  next
    case 10 then show ?thesis using na by (intro bexI[of _ "CHR ''_''"]) simp_all
  next
    case 11 then show ?thesis using na by (intro bexI[of _ "CHR ''_''"]) simp_all
  qed
qed

lemma token_inherited:
  assumes "w \<in> set (tokenize t)" and "w \<in> set objectPrototypeKeys"
  shows "w = ''constructor''"
  using assms inherited_not_alnum token_chars by blast

subsection \<open>Counting\<close>

lemma weight_js_set:
  "weight (js_set obj key v) k = (if k = key then (case v of Number r \<Rightarrow> r | _ \<Rightarrow> 0) else weight obj k)"
  by (simp add: weight_def map_of_js_set)

lemma counter_Nil: "counter []"
  by (simp add: counter_def)

lemma counter_map_of:
  assumes "counter obj" and "map_of obj k = Some v"
  shows "if k \<in> set objectPrototypeKeys then v = NonNumeric else \<exists>n. 0 < n \<and> v = Number (real (n::nat))"
  using assms unfolding counter_def by (auto dest!: map_of_SomeD)

lemma set_js_set: "set (js_set obj key v) \<subseteq> insert (key, v) (set obj)"
  by (induction obj key v rule: js_set.induct) auto

lemma increment_value:
  assumes "counter obj"
  shows "js_plus (js_or (js_get obj k) (Number 0)) (Number 1) =
           (if k \<in> set objectPrototypeKeys then NonNumeric else Number (weight obj k + 1))"
proof (cases "map_of obj k")
  case None
  then show ?thesis by (simp add: js_get_def js_or_def weight_def)
next
  case (Some v)
  with counter_map_of[OF assms Some] show ?thesis
    by (auto simp: js_get_def js_or_def weight_def split: if_splits)
qed

lemma counter_increment:
  assumes "counter obj"
  shows "counter (increment obj k)"
proof -
  have d: "distinct (map fst (increment obj k))"
    using assms by (simp add: increment_def counter_def distinct_js_set)
  have "\<And>k' v. (k', v) \<in> set (increment obj k) \<Longrightarrow>
          (if k' \<in> set objectPrototypeKeys then v = NonNumeric
           else \<exists>n. 0 < n \<and> v = Number (real (n::nat)))"
  proof -
    fix k' v assume "(k', v) \<in> set (increment obj k)"
    then have "map_of (increment obj k) k' = Some v" using d by simp
    then have m: "((map_of obj)(k \<mapsto> js_plus (js_or (js_get obj k) (Number 0)) (Number 1))) k' = Some v"
      by (simp add: increment_def map_of_js_set)
    show "if k' \<in> set objectPrototypeKeys then v = NonNumeric
           else \<exists>n. 0 < n \<and> v = Number (real (n::nat))"
    proof (cases "k' = k")
      case True
      with m have v: "v = (if k \<in> set objectPrototypeKeys then NonNumeric else Number (weight obj k + 1))"
        by (simp add: increment_value[OF assms])
      have "\<exists>n::nat. weight obj k = real n"
      proof (cases "map_of obj k")
        case None
        then show ?thesis by (simp add: weight_def)
      next
        case (Some u)
        with counter_map_of[OF assms Some] show ?thesis
          by (auto simp: weight_def split: if_splits intro: exI[of _ 0])
      qed
      then obtain n :: nat where "weight obj k = real n" by blast
      with v True show ?thesis by (auto intro!: exI[of _ "Suc n"])
    next
      case False
      with m have "map_of obj k' = Some v" by simp
      from counter_map_of[OF assms this] show ?thesis .
    qed
  qed
  with d show ?thesis unfolding counter_def by blast
qed

lemma keys_increment: "fst ` set (increment obj k) = insert k (fst ` set obj)"
proof -
  have "set (map fst (increment obj k)) = insert k (fst ` set obj)"
    unfolding increment_def keys_js_set by auto
  then show ?thesis by simp
qed

lemma weight_increment:
  assumes "counter obj"
  shows "weight (increment obj k) k' =
           weight obj k' + (if k' = k \<and> k \<notin> set objectPrototypeKeys then 1 else 0)"
proof (cases "k' = k")
  case True
  have "weight obj k = 0" if "k \<in> set objectPrototypeKeys"
  proof (cases "map_of obj k")
    case None
    then show ?thesis by (simp add: weight_def)
  next
    case (Some u)
    with counter_map_of[OF assms Some] that show ?thesis by (simp add: weight_def)
  qed
  with True show ?thesis
    by (simp add: increment_def weight_js_set increment_value[OF assms])
next
  case False
  then show ?thesis by (simp add: increment_def weight_js_set)
qed

lemma foldl_increment:
  assumes "counter obj"
  shows "counter (foldl increment obj ws)"
    and "fst ` set (foldl increment obj ws) = fst ` set obj \<union> set ws"
    and "k \<notin> set objectPrototypeKeys \<Longrightarrow>
           weight (foldl increment obj ws) k = weight obj k + real (count_list ws k)"
  using assms
proof (induction ws arbitrary: obj)
  case Nil
  { case 1 then show ?case by simp }
  { case 2 then show ?case by simp }
  { case 3 then show ?case by simp }
next
  case (Cons w ws)
  { case 1 then show ?case using Cons.IH(1)[OF counter_increment] by simp }
  { case 2 then show ?case using Cons.IH(2)[OF counter_increment] by (simp add: keys_increment) }
  { case 3 then show ?case
      using Cons.IH(3)[OF 3(1) counter_increment[OF 3(2)], of w] by (simp add: weight_increment) }
qed

subsection \<open>Term frequencies\<close>

lemma map_of_map_value:
  "map_of (map (\<lambda>(k, v). (k, f v)) obj) k = map_option f (map_of obj k)"
  by (induction obj) auto

lemma keys_map_value: "map fst (map (\<lambda>(k, v). (k, f v)) obj) = map fst obj"
  by (induction obj) auto

lemma termFrequency_keys:
  "distinct (map fst (termFrequency tokens))"
  "fst ` set (termFrequency tokens) = set tokens"
proof -
  have c: "counter (foldl increment [] tokens)"
    by (rule foldl_increment(1)[OF counter_Nil])
  show "distinct (map fst (termFrequency tokens))"
    using c unfolding termFrequency_def Let_def keys_map_value counter_def by simp
  have "set (map fst (termFrequency tokens)) = set tokens"
    unfolding termFrequency_def Let_def keys_map_value
    using foldl_increment(2)[OF counter_Nil, of tokens] by simp
  then show "fst ` set (termFrequency tokens) = set tokens" by simp
qed

lemma termFrequency_value:
  assumes "(k, v) \<in> set (termFrequency tokens)"
  shows "if k \<in> set objectPrototypeKeys then v = NaN
         else v = Number (real (count_list tokens k) / real (length tokens)) \<and> k \<in> set tokens"
proof -
  let ?cnt = "foldl increment [] tokens"
  let ?total = "if length tokens = 0 then 1 else length tokens"
  have c: "counter ?cnt" by (rule foldl_increment(1)[OF counter_Nil])
  have kin: "k \<in> set tokens" using assms termFrequency_keys(2) by (metis fst_conv image_eqI)
  then have tpos: "?total = length tokens" "length tokens \<noteq> 0" by auto
  from assms have "map_of (termFrequency tokens) k = Some v"
    using termFrequency_keys(1) by simp
  then obtain u where u: "map_of ?cnt k = Some u" and v: "v = js_div u (Number (real ?total))"
    unfolding termFrequency_def Let_def map_of_map_value by auto
  show ?thesis
  proof (cases "k \<in> set objectPrototypeKeys")
    case True
    with counter_map_of[OF c u] v show ?thesis by simp
  next
    case False
    with counter_map_of[OF c u] obtain n :: nat where n: "u = Number (real n)" by auto
    have "weight ?cnt k = real (count_list tokens k)"
      using foldl_increment(3)[OF counter_Nil False, of tokens] by (simp add: weight_def)
    with u n have "real n = real (count_list tokens k)" by (simp add: weight_def)
    with v n tpos False kin show ?thesis by simp
  qed
qed

subsection \<open>Inverse document frequencies\<close>

lemma count_list_distinct: "distinct xs \<Longrightarrow> count_list xs x = (if x \<in> set xs then 1 else 0)"
  by (induction xs) auto

lemma foldl_documents:
  assumes "counter obj"
  shows "counter (foldl (\<lambda>idf doc. foldl increment idf (new_Set (tokenize doc))) obj docs)"
    and "fst ` set (foldl (\<lambda>idf doc. foldl increment idf (new_Set (tokenize doc))) obj docs) =
           fst ` set obj \<union> (\<Union>doc \<in> set docs. set (tokenize doc))"
    and "k \<notin> set objectPrototypeKeys \<Longrightarrow>
           weight (foldl (\<lambda>idf doc. foldl increment idf (new_Set (tokenize doc))) obj docs) k =
             weight obj k + real (documentCount docs k)"
  using assms
proof (induction docs arbitrary: obj)
  case Nil
  { case 1 then show ?case by simp }
  { case 2 then show ?case by simp }
  { case 3 then show ?case by (simp add: documentCount_def) }
next
  case (Cons d ds)
  { case 1
    then show ?case using Cons.IH(1)[OF foldl_increment(1)] by simp }
  { case 2
    then show ?case
      using Cons.IH(2)[OF foldl_increment(1)[OF 2], of "new_Set (tokenize d)"]
        foldl_increment(2)[OF 2, of "new_Set (tokenize d)"]
      by (auto simp: set_new_Set) }
  { case 3
    let ?o = "foldl increment obj (new_Set (tokenize d))"
    have "weight ?o k = weight obj k + (if k \<in> set (tokenize d) then 1 else 0)"
      using foldl_increment(3)[OF 3(2) 3(1), of "new_Set (tokenize d)"]
      by (auto simp: count_list_distinct[OF distinct_new_Set] set_new_Set)
    moreover have "documentCount (d # ds) k =
        (if k \<in> set (tokenize d) then 1 else 0) + documentCount ds k"
      by (simp add: documentCount_def)
    ultimately show ?case
      using Cons.IH(3)[OF 3(1) foldl_increment(1)[OF 3(2)], of "new_Set (tokenize d)"] by simp }
qed

lemma documentCount_le: "documentCount docs k \<le> length docs"
  by (simp add: documentCount_def)

lemma documentCount_pos: "k \<in> set (tokenize d) \<Longrightarrow> d \<in> set docs \<Longrightarrow> 0 < documentCount docs k"
  by (auto simp: documentCount_def filter_empty_conv)

lemma idf_keys:
  "distinct (map fst (inverseDocumentFrequency docs))"
  "fst ` set (inverseDocumentFrequency docs) = (\<Union>doc \<in> set docs. set (tokenize doc))"
proof -
  let ?cnt = "foldl (\<lambda>idf doc. foldl increment idf (new_Set (tokenize doc))) [] docs"
  have c: "counter ?cnt" by (rule foldl_documents(1)[OF counter_Nil])
  show "distinct (map fst (inverseDocumentFrequency docs))"
    using c unfolding inverseDocumentFrequency_def Let_def keys_map_value counter_def by simp
  have "set (map fst (inverseDocumentFrequency docs)) = (\<Union>doc \<in> set docs. set (tokenize doc))"
    unfolding inverseDocumentFrequency_def Let_def keys_map_value
    using foldl_documents(2)[OF counter_Nil, of docs] by simp
  then show "fst ` set (inverseDocumentFrequency docs) = (\<Union>doc \<in> set docs. set (tokenize doc))"
    by simp
qed

lemma idf_value:
  assumes "(k, v) \<in> set (inverseDocumentFrequency docs)"
  shows "if k \<in> set objectPrototypeKeys then v = NaN
         else v = Number (ln (real (length docs) / real (documentCount docs k)) + 1) \<and>
              0 < documentCount docs k"
proof -
  let ?cnt = "foldl (\<lambda>idf doc. foldl increment idf (new_Set (tokenize doc))) [] docs"
  have c: "counter ?cnt" by (rule foldl_documents(1)[OF counter_Nil])
  from assms have "k \<in> (\<Union>doc \<in> set docs. set (tokenize doc))"
    using idf_keys(2) by (metis fst_conv image_eqI)
  then have pos: "0 < documentCount docs k" using documentCount_pos by auto
  from assms have "map_of (inverseDocumentFrequency docs) k = Some v"
    using idf_keys(1) by simp
  then obtain u where u: "map_of ?cnt k = Some u"
    and v: "v = js_plus (Math_log (js_div (Number (real (length docs))) u)) (Number 1)"
    unfolding inverseDocumentFrequency_def Let_def map_of_map_value by auto
  show ?thesis
  proof (cases "k \<in> set objectPrototypeKeys")
    case True
    with counter_map_of[OF c u] v show ?thesis by simp
  next
    case False
    with counter_map_of[OF c u] obtain n :: nat where n: "u = Number (real n)" by auto
    have "weight ?cnt k = real (documentCount docs k)"
      using foldl_documents(3)[OF counter_Nil False, of docs] by (simp add: weight_def)
    with u n have nk: "real n = real (documentCount docs k)" by (simp add: weight_def)
    have "0 < length docs" using pos documentCount_le[of docs k] by linarith
    then have "0 < real (length docs) / real (documentCount docs k)"
      using pos by simp
    with v n nk pos False show ?thesis by simp
  qed
qed

lemma idf_value_ge1:
  assumes "(k, v) \<in> set (inverseDocumentFrequency docs)" and "k \<notin> set objectPrototypeKeys"
  shows "\<exists>r. 1 \<le> r \<and> v = Number r"
proof -
  from idf_value[OF assms(1)] assms(2)
  have v: "v = Number (ln (real (length docs) / real (documentCount docs k)) + 1)"
    and pos: "0 < documentCount docs k" by auto
  have "1 \<le> real (length docs) / real (documentCount docs k)"
    using pos documentCount_le[of docs k] by simp
  then have "0 \<le> ln (real (length docs) / real (documentCount docs k))" by simp
  with v show ?thesis by simp
qed

subsection \<open>The Cauchy-Schwarz inequality\<close>

lemma cauchy_schwarz_step:
  fixes x y A B C :: real
  assumes "C\<^sup>2 \<le> A * B" "0 \<le> A" "0 \<le> B"
  shows "(x * y + C)\<^sup>2 \<le> (x\<^sup>2 + A) * (y\<^sup>2 + B)"
proof -
  have c: "\<bar>C\<bar> \<le> sqrt A * sqrt B"
    using assms by (metis real_sqrt_abs real_sqrt_le_iff real_sqrt_mult)
  have "2 * (x * y) * C \<le> 2 * \<bar>x * y\<bar> * \<bar>C\<bar>"
    by (metis abs_ge_self abs_mult abs_numeral mult.assoc)
  also have "\<dots> \<le> 2 * \<bar>x * y\<bar> * (sqrt A * sqrt B)"
    using c by (simp add: mult_left_mono)
  also have "\<dots> = 2 * (\<bar>x\<bar> * sqrt B) * (\<bar>y\<bar> * sqrt A)"
    by (simp add: abs_mult)
  also have "\<dots> \<le> (\<bar>x\<bar> * sqrt B)\<^sup>2 + (\<bar>y\<bar> * sqrt A)\<^sup>2"
    using sum_squares_bound[of "\<bar>x\<bar> * sqrt B" "\<bar>y\<bar> * sqrt A"] by simp
  also have "\<dots> = x\<^sup>2 * B + y\<^sup>2 * A"
    using assms by (simp add: power_mult_distrib)
  finally have "2 * (x * y) * C \<le> x\<^sup>2 * B + y\<^sup>2 * A" .
  moreover have "(x * y + C)\<^sup>2 = x\<^sup>2 * y\<^sup>2 + 2 * (x * y) * C + C\<^sup>2"
    by (simp add: power2_eq_square algebra_simps)
  moreover have "(x\<^sup>2 + A) * (y\<^sup>2 + B) = x\<^sup>2 * y\<^sup>2 + (x\<^sup>2 * B + y\<^sup>2 * A) + A * B"
    by (simp add: algebra_simps)
  ultimately show ?thesis using assms(1) by linarith
qed

lemma cauchy_schwarz_sum:
  fixes f g :: "'a \<Rightarrow> real"
  assumes "finite S"
  shows "(\<Sum>k\<in>S. f k * g k)\<^sup>2 \<le> (\<Sum>k\<in>S. (f k)\<^sup>2) * (\<Sum>k\<in>S. (g k)\<^sup>2)"
  using assms
proof (induction S rule: finite_induct)
  case empty
  then show ?case by simp
next
  case (insert x F)
  have "0 \<le> (\<Sum>k\<in>F. (f k)\<^sup>2)" "0 \<le> (\<Sum>k\<in>F. (g k)\<^sup>2)"
    by (simp_all add: sum_nonneg)
  from cauchy_schwarz_step[OF insert.IH this, of "f x" "g x"] insert.hyps
  show ?case by simp
qed

subsection \<open>The key \<open>constructor\<close>\<close>

lemma tokenize_constructor: "tokenize ''constructor'' = [''constructor'']"
  by (simp add: tokenize_def toLowerCase_def lowerChar_def isAlnum_def isSpace_def)

lemma idf_constructor:
  "inverseDocumentFrequency [''constructor''] = [(''constructor'', NaN)]"
  by (simp add: inverseDocumentFrequency_def tokenize_constructor new_Set_def set_add_def
      increment_def js_get_def js_or_def objectPrototypeKeys_def)

lemma cos_constructor:
  "cosineSimilarity [] [(''constructor'', Number 1)] = NaN"
  by (simp add: cosineSimilarity_def cosineStep_def new_Set_def set_add_def
      js_get_def js_or_def objectPrototypeKeys_def)

subsection \<open>TF-IDF vectors\<close>

lemma foldl_vector:
  assumes "distinct (map fst acc @ map fst tf)"
  shows "foldl (\<lambda>vector (word, f).
                  if truthy (js_get idf word)
                  then js_set vector word (js_times f (js_get idf word))
                  else vector) acc tf =
         acc @ map (\<lambda>(word, f). (word, js_times f (js_get idf word)))
                 (filter (\<lambda>(word, f). truthy (js_get idf word)) tf)"
  using assms
proof (induction tf arbitrary: acc)
  case Nil
  then show ?case by simp
next
  case (Cons p tf)
  obtain w f where p: "p = (w, f)" by (cases p)
  show ?case
  proof (cases "truthy (js_get idf w)")
    case True
    from Cons.prems p have fresh: "w \<notin> fst ` set acc" by auto
    have d: "distinct (map fst (acc @ [(w, js_times f (js_get idf w))]) @ map fst tf)"
      using Cons.prems p by auto
    show ?thesis
      using Cons.IH[OF d] True p by (simp add: js_set_fresh[OF fresh])
  next
    case False
    have d: "distinct (map fst acc @ map fst tf)" using Cons.prems by auto
    show ?thesis using Cons.IH[OF d] False p by simp
  qed
qed

lemma tfidfVector_eq:
  "tfidfVector t idf =
     map (\<lambda>(word, f). (word, js_times f (js_get idf word)))
       (filter (\<lambda>(word, f). truthy (js_get idf word)) (termFrequency (tokenize t)))"
  unfolding tfidfVector_def Let_def
  using foldl_vector[of "[]" "termFrequency (tokenize t)" idf] termFrequency_keys(1)
  by simp

lemma tfidfVector_keys:
  "distinct (map fst (tfidfVector t idf))"
  "fst ` set (tfidfVector t idf) \<subseteq> set (tokenize t)"
proof -
  let ?tf = "termFrequency (tokenize t)"
  let ?p = "\<lambda>(word, f). truthy (js_get idf word)"
  have "map fst (tfidfVector t idf) = map fst (filter ?p ?tf)"
    unfolding tfidfVector_eq by (induction ?tf) auto
  moreover have "distinct (map fst (filter ?p ?tf))"
    using termFrequency_keys(1)[of "tokenize t"] by (rule distinct_map_filter)
  ultimately show "distinct (map fst (tfidfVector t idf))" by simp
  have "fst ` set (tfidfVector t idf) \<subseteq> fst ` set ?tf"
    unfolding tfidfVector_eq by force
  then show "fst ` set (tfidfVector t idf) \<subseteq> set (tokenize t)"
    using termFrequency_keys(2) by simp
qed

lemma js_get_own:
  assumes "distinct (map fst obj)" and "(k, v) \<in> set obj"
  shows "js_get obj k = v"
  using assms by (simp add: js_get_def)

lemma tfidfVector_termVector:
  assumes "t \<in> set docs"
  shows "termVector (tfidfVector t (inverseDocumentFrequency docs))"
proof -
  let ?idf = "inverseDocumentFrequency docs"
  have "k \<notin> set objectPrototypeKeys \<and> (\<exists>r. 0 \<le> r \<and> v = Number r)"
    if kv: "(k, v) \<in> set (tfidfVector t ?idf)" for k v
  proof -
    from kv obtain f where f: "(k, f) \<in> set (termFrequency (tokenize t))"
      and tr: "truthy (js_get ?idf k)" and v: "v = js_times f (js_get ?idf k)"
      unfolding tfidfVector_eq by auto
    from f have "k \<in> set (tokenize t)"
      using termFrequency_keys(2) by (metis fst_conv image_eqI)
    with assms have "k \<in> fst ` set ?idf" using idf_keys(2) by auto
    then obtain u where u: "(k, u) \<in> set ?idf" by auto
    then have g: "js_get ?idf k = u" using idf_keys(1) js_get_own by blast
    have np: "k \<notin> set objectPrototypeKeys"
    proof
      assume "k \<in> set objectPrototypeKeys"
      with idf_value[OF u] have "u = NaN" by simp
      with tr g show False by simp
    qed
    from idf_value_ge1[OF u np] obtain r where r: "1 \<le> r" "u = Number r" by blast
    from termFrequency_value[OF f] np
    have "f = Number (real (count_list (tokenize t) k) / real (length (tokenize t)))" by simp
    with r g v have "v = Number (real (count_list (tokenize t) k) / real (length (tokenize t)) * r)"
      by simp
    moreover have "0 \<le> real (count_list (tokenize t) k) / real (length (tokenize t)) * r"
      using r(1) by simp
    ultimately show ?thesis using np by blast
  qed
  then show ?thesis
    unfolding termVector_def using tfidfVector_keys(1) by blast
qed

subsection \<open>Cosine similarity\<close>

lemma foldl_cosineStep:
  "foldl (cosineStep a b) (d, ma, mb) ks =
     (foldl js_plus d (map (\<lambda>k. js_times (entry a k) (entry b k)) ks),
      foldl js_plus ma (map (\<lambda>k. js_times (entry a k) (entry a k)) ks),
      foldl js_plus mb (map (\<lambda>k. js_times (entry b k) (entry b k)) ks))"
  by (induction ks arbitrary: d ma mb) (simp_all add: cosineStep_def entry_def Let_def)

lemma js_times_cases: "js_times x y = NaN \<or> (\<exists>r. js_times x y = Number r)"
  by (cases x; cases y) simp_all

lemma foldl_js_plus_NaN: "\<forall>x\<in>set xs. x = NaN \<or> (\<exists>r. x = Number r) \<Longrightarrow> foldl js_plus NaN xs = NaN"
  by (induction xs) auto

lemma foldl_js_plus:
  assumes "\<forall>x\<in>set xs. x = NaN \<or> (\<exists>r. x = Number r)"
  shows "foldl js_plus (Number d) xs =
           (if NaN \<in> set xs then NaN else Number (d + sum_list (map numberOf xs)))"
  using assms
proof (induction xs arbitrary: d)
  case Nil
  then show ?case by simp
next
  case (Cons x xs)
  then consider "x = NaN" | r where "x = Number r" by auto
  then show ?case
  proof cases
    case 1
    then show ?thesis using Cons.prems by (simp add: foldl_js_plus_NaN)
  next
    case 2
    then show ?thesis using Cons by (auto simp: add.assoc)
  qed
qed

text \<open>The sum the loop accumulates for a term \<open>p\<close> over distinct keys depends on the set of
  keys only.\<close>

lemma foldl_js_plus_set:
  assumes "distinct ks" and "\<forall>k\<in>set ks. p k = NaN \<or> (\<exists>r. p k = Number r)"
  shows "foldl js_plus (Number 0) (map p ks) =
           (if NaN \<in> p ` set ks then NaN else Number (\<Sum>k\<in>set ks. numberOf (p k)))"
proof -
  have "sum_list (map numberOf (map p ks)) = (\<Sum>k\<in>set ks. numberOf (p k))"
    using assms(1) by (simp add: sum.distinct_set_conv_list comp_def)
  moreover have "\<forall>x\<in>set (map p ks). x = NaN \<or> (\<exists>r. x = Number r)"
    using assms(2) by auto
  ultimately show ?thesis using foldl_js_plus[of "map p ks" 0] by simp
qed

lemma cosineSimilarity_sums:
  "cosineSimilarity a b =
     (let ks = new_Set (map fst a @ map fst b);
          dot = foldl js_plus (Number 0) (map (\<lambda>k. js_times (entry a k) (entry b k)) ks);
          magA = foldl js_plus (Number 0) (map (\<lambda>k. js_times (entry a k) (entry a k)) ks);
          magB = foldl js_plus (Number 0) (map (\<lambda>k. js_times (entry b k) (entry b k)) ks);
          magnitude = js_times (Math_sqrt magA) (Math_sqrt magB)
      in if magnitude = Number 0 then Number 0 else js_div dot magnitude)"
  by (simp add: cosineSimilarity_def foldl_cosineStep Let_def)

text \<open>
  In exact arithmetic the order of the own keys does not matter: two objects with the same properties, listed
  in different orders, have the same similarity to every object.  (JavaScript enumerates
  keys that are array indices, such as the token \<open>2024\<close>, before all others; the lists of
  the model keep the order of insertion.)
\<close>

lemma cosineSimilarity_reorder:
  assumes "distinct (map fst a)" and "distinct (map fst a')" and "set a = set a'"
  shows "cosineSimilarity a b = cosineSimilarity a' b"
proof -
  let ?k1 = "new_Set (map fst a @ map fst b)" and ?k2 = "new_Set (map fst a' @ map fst b)"
  have "map_of a = map_of a'" using assms by (simp add: map_of_inject_set)
  then have e: "entry a = entry a'" by (simp add: entry_def js_get_def fun_eq_iff)
  have "fst ` set a = fst ` set a'" using assms(3) by simp
  then have s: "set ?k1 = set ?k2" by (simp add: set_new_Set)
  have d: "distinct ?k1" "distinct ?k2" by (rule distinct_new_Set)+
  have eq: "foldl js_plus (Number 0) (map p ?k1) = foldl js_plus (Number 0) (map p ?k2)"
    if "\<And>k. p k = NaN \<or> (\<exists>r. p k = Number r)" for p
    using foldl_js_plus_set[OF d(1), of p] foldl_js_plus_set[OF d(2), of p] that s
    by simp
  show ?thesis
    unfolding cosineSimilarity_sums Let_def e
    using eq[of "\<lambda>k. js_times (entry a' k) (entry b k)", OF js_times_cases]
      eq[of "\<lambda>k. js_times (entry a' k) (entry a' k)", OF js_times_cases]
      eq[of "\<lambda>k. js_times (entry b k) (entry b k)", OF js_times_cases]
    by simp
qed

lemma weight_own:
  assumes "distinct (map fst obj)" and "(k, v) \<in> set obj"
  shows "weight obj k = numberOf v"
  using assms by (cases v) (simp_all add: weight_def)

lemma weight_absent: "k \<notin> fst ` set obj \<Longrightarrow> weight obj k = 0"
  by (simp add: weight_def map_of_eq_None_iff[THEN iffD2])

lemma entry_own_number:
  assumes "distinct (map fst obj)" and "(k, Number r) \<in> set obj"
  shows "entry obj k = Number r"
  using assms by (simp add: entry_def js_or_def js_get_def)

lemma entry_termVector:
  assumes "termVector a" and "termVector b" and "k \<in> fst ` set a \<union> fst ` set b"
  shows "entry a k = Number (weight a k) \<and> 0 \<le> weight a k"
proof (cases "k \<in> fst ` set a")
  case True
  then obtain v where kv: "(k, v) \<in> set a" by auto
  with assms(1) obtain r where r: "0 \<le> r" "v = Number r" and d: "distinct (map fst a)"
    unfolding termVector_def by auto
  from weight_own[OF d kv] entry_own_number[OF d] kv r show ?thesis by simp
next
  case False
  with assms(3) obtain v where "(k, v) \<in> set b" by auto
  with assms(2) have "k \<notin> set objectPrototypeKeys" unfolding termVector_def by auto
  moreover from False have "map_of a k = None" by (simp add: map_of_eq_None_iff)
  ultimately show ?thesis by (simp add: entry_def js_get_def js_or_def weight_def)
qed

lemma squared_weights:
  assumes "distinct (map fst a)" and "fst ` set a \<subseteq> S" and "finite S"
  shows "(\<Sum>k\<in>S. (weight a k)\<^sup>2) = (\<Sum>(k, v) \<leftarrow> a. (numberOf v)\<^sup>2)"
proof -
  have "(\<Sum>k\<in>S. (weight a k)\<^sup>2) = (\<Sum>k\<in>fst ` set a. (weight a k)\<^sup>2)"
    using assms(2,3) by (intro sum.mono_neutral_right) (auto simp: weight_absent)
  also have "\<dots> = sum_list (map (\<lambda>k. (weight a k)\<^sup>2) (map fst a))"
    using assms(1) sum.distinct_set_conv_list[of "map fst a" "\<lambda>k. (weight a k)\<^sup>2"] by simp
  also have "\<dots> = (\<Sum>(k, v) \<leftarrow> a. (numberOf v)\<^sup>2)"
  proof -
    have "map ((\<lambda>k. (weight a k)\<^sup>2) \<circ> fst) a = map (\<lambda>(k, v). (numberOf v)\<^sup>2) a"
      using weight_own[OF assms(1)] by (intro map_cong) auto
    then show ?thesis by (simp only: map_map)
  qed
  finally show ?thesis .
qed

lemma cosineSimilarity_termVector:
  assumes "termVector a" and "termVector b"
  defines "S \<equiv> fst ` set a \<union> fst ` set b"
  defines "dot \<equiv> (\<Sum>k\<in>S. weight a k * weight b k)"
  shows "cosineSimilarity a b =
           Number (if euclideanNorm a * euclideanNorm b = 0 then 0
                   else dot / (euclideanNorm a * euclideanNorm b))"
    and "0 \<le> dot" and "dot \<le> euclideanNorm a * euclideanNorm b"
proof -
  let ?ks = "new_Set (map fst a @ map fst b)"
  have ks: "set ?ks = S" "distinct ?ks" by (auto simp: set_new_Set S_def distinct_new_Set)
  have fin: "finite S" by (simp add: S_def)
  have ea: "entry a k = Number (weight a k)" "0 \<le> weight a k" if "k \<in> S" for k
    using entry_termVector[OF assms(1,2)] that by (auto simp: S_def)
  have eb: "entry b k = Number (weight b k)" "0 \<le> weight b k" if "k \<in> S" for k
    using entry_termVector[OF assms(2,1), of k] that by (auto simp: S_def)
  have sums: "foldl js_plus (Number 0) (map (\<lambda>k. js_times (entry x k) (entry y k)) ?ks) =
        Number (\<Sum>k\<in>S. weight x k * weight y k)"
    if "\<And>k. k \<in> S \<Longrightarrow> entry x k = Number (weight x k)"
       "\<And>k. k \<in> S \<Longrightarrow> entry y k = Number (weight y k)" for x y
  proof -
    have p: "\<forall>k\<in>set ?ks. js_times (entry x k) (entry y k) = Number (weight x k * weight y k)"
      using that ks(1) by simp
    then have "NaN \<notin> (\<lambda>k. js_times (entry x k) (entry y k)) ` set ?ks" by auto
    moreover have "(\<Sum>k\<in>set ?ks. numberOf (js_times (entry x k) (entry y k))) =
        (\<Sum>k\<in>S. weight x k * weight y k)"
      using p ks(1) by (intro sum.cong) auto
    ultimately show ?thesis
      using foldl_js_plus_set[OF ks(2), of "\<lambda>k. js_times (entry x k) (entry y k)"] p by auto
  qed
  have na: "(\<Sum>k\<in>S. weight a k * weight a k) = (\<Sum>(k, v) \<leftarrow> a. (numberOf v)\<^sup>2)"
    using squared_weights[of a S] assms(1) fin
    by (simp add: termVector_def S_def power2_eq_square)
  have nb: "(\<Sum>k\<in>S. weight b k * weight b k) = (\<Sum>(k, v) \<leftarrow> b. (numberOf v)\<^sup>2)"
    using squared_weights[of b S] assms(2) fin
    by (simp add: termVector_def S_def power2_eq_square)
  have pa: "0 \<le> (\<Sum>(k, v) \<leftarrow> a. (numberOf v)\<^sup>2)"
    by (rule sum_list_nonneg) auto
  have pb: "0 \<le> (\<Sum>(k, v) \<leftarrow> b. (numberOf v)\<^sup>2)"
    by (rule sum_list_nonneg) auto
  show "cosineSimilarity a b =
           Number (if euclideanNorm a * euclideanNorm b = 0 then 0
                   else dot / (euclideanNorm a * euclideanNorm b))"
    unfolding cosineSimilarity_sums Let_def
    using pa pb
    by (simp add: sums[OF ea(1) eb(1)] sums[OF ea(1) ea(1)] sums[OF eb(1) eb(1)] na nb
        euclideanNorm_def dot_def)
  show "0 \<le> dot"
    unfolding dot_def using ea(2) eb(2) by (intro sum_nonneg) simp
  have "dot\<^sup>2 \<le> (\<Sum>k\<in>S. (weight a k)\<^sup>2) * (\<Sum>k\<in>S. (weight b k)\<^sup>2)"
    unfolding dot_def by (rule cauchy_schwarz_sum[OF fin])
  then have "dot\<^sup>2 \<le> (euclideanNorm a * euclideanNorm b)\<^sup>2"
    using na nb pa pb by (simp add: euclideanNorm_def power2_eq_square[symmetric] power_mult_distrib)
  moreover have "0 \<le> euclideanNorm a * euclideanNorm b"
    using pa pb by (simp add: euclideanNorm_def)
  ultimately show "dot \<le> euclideanNorm a * euclideanNorm b"
    using power2_le_imp_le by blast
qed

subsection \<open>Tag overlap\<close>

lemma tagOverlapScore_nonneg: "0 \<le> tagOverlapScore xs ys"
  by (simp add: tagOverlapScore_def Let_def)

lemma tagOverlapScore_disjoint:
  assumes "set (map toLowerCase xs) \<inter> set (map toLowerCase ys) = {}"
  shows "tagOverlapScore xs ys = 0"
proof -
  have "filter (\<lambda>tag. tag \<in> set (new_Set (map toLowerCase ys))) (new_Set (map toLowerCase xs)) = []"
    using assms by (auto simp: filter_empty_conv set_new_Set)
  then show ?thesis by (simp add: tagOverlapScore_def Let_def)
qed

subsection \<open>One match\<close>

lemma matchOf_fields:
  fixes c h :: profile
  assumes "cosineSimilarity cv hv = Number t"
  defines "g \<equiv> tagOverlapScore (orNil (tags c)) (orNil (tags h))"
  shows "creator (matchOf (c, cv) (h, hv)) = c"
    and "hotel (matchOf (c, cv) (h, hv)) = h"
    and "score (matchOf (c, cv) (h, hv)) =
           Number (of_int (min (round ((t * 0.6 + g * 0.4) * 100 + 50)) 99))"
    and "textSimilarity (matchOf (c, cv) (h, hv)) = Number (of_int (round (t * 100)))"
    and "tagOverlap (matchOf (c, cv) (h, hv)) = Number (of_int (round (g * 100)))"
  using assms by (simp_all add: matchOf_def Let_def min_def)

lemma score_bounds:
  fixes t g :: real
  assumes "0 \<le> t" and "0 \<le> g"
  shows "50 \<le> min (round ((t * 0.6 + g * 0.4) * 100 + 50)) 99"
    and "min (round ((t * 0.6 + g * 0.4) * 100 + 50)) 99 \<le> 99"
proof -
  have "50 \<le> (t * 0.6 + g * 0.4) * 100 + 50" using assms by simp
  then have "round (50::real) \<le> round ((t * 0.6 + g * 0.4) * 100 + 50)"
    by (rule round_mono)
  then show "50 \<le> min (round ((t * 0.6 + g * 0.4) * 100 + 50)) 99" by simp
  show "min (round ((t * 0.6 + g * 0.4) * 100 + 50)) 99 \<le> 99" by simp
qed

subsection \<open>The unsorted matches\<close>

lemma matchOf_creator: "creator (matchOf (c, cv) (h, hv)) = c"
  by (simp add: matchOf_def Let_def)

lemma matchOf_hotel: "hotel (matchOf (c, cv) (h, hv)) = h"
  by (simp add: matchOf_def Let_def)

lemma allMatches_eq:
  "allMatches cs hs =
     concat (map (\<lambda>c. map (\<lambda>h.
        matchOf (c, tfidfVector (buildProfileText c) (corpusIdf cs hs))
                (h, tfidfVector (buildProfileText h) (corpusIdf cs hs))) hs) cs)"
  by (simp add: allMatches_def corpusIdf_def Let_def comp_def)

lemma length_concat_const: "length (concat (map (\<lambda>x. map (f x) ys) xs)) = length xs * length ys"
  by (induction xs) simp_all

lemma length_allMatches: "length (allMatches cs hs) = length cs * length hs"
  unfolding allMatches_eq by (rule length_concat_const)

lemma allMatches_endpoints:
  "map (\<lambda>m. (creator m, hotel m)) (allMatches cs hs) = List.product cs hs"
proof -
  have "map (\<lambda>m. (creator m, hotel m)) (concat (map (\<lambda>c. map (\<lambda>h. matchOf (c, f c) (h, f h)) hs) xs))
      = List.product xs hs" for f xs
    by (induction xs) (simp_all add: matchOf_creator matchOf_hotel comp_def)
  then show ?thesis unfolding allMatches_eq .
qed

lemma set_allMatches:
  "set (allMatches cs hs) =
     (\<lambda>(c, h). matchOf (c, tfidfVector (buildProfileText c) (corpusIdf cs hs))
                         (h, tfidfVector (buildProfileText h) (corpusIdf cs hs))) ` (set cs \<times> set hs)"
  unfolding allMatches_eq by auto

lemma profile_termVector:
  assumes "p \<in> set cs \<union> set hs"
  shows "termVector (tfidfVector (buildProfileText p) (corpusIdf cs hs))"
  unfolding corpusIdf_def using assms by (intro tfidfVector_termVector) auto

lemma guarded_quotient:
  fixes d n :: real
  assumes "0 \<le> d" and "d \<le> n"
  shows "0 \<le> (if n = 0 then 0 else d / n)" and "(if n = 0 then 0 else d / n) \<le> 1"
proof -
  have "0 \<le> n" using assms by linarith
  then show "0 \<le> (if n = 0 then 0 else d / n)" using assms(1) by simp
  show "(if n = 0 then 0 else d / n) \<le> 1"
    using assms \<open>0 \<le> n\<close> by (simp add: divide_le_eq_1)
qed

lemma pair_similarity:
  assumes "c \<in> set cs" and "h \<in> set hs"
  shows "\<exists>t. 0 \<le> t \<and> t \<le> 1 \<and> textSimilarityOf cs hs c h = Number t"
proof -
  let ?a = "tfidfVector (buildProfileText c) (corpusIdf cs hs)"
  let ?b = "tfidfVector (buildProfileText h) (corpusIdf cs hs)"
  have a: "termVector ?a" and b: "termVector ?b"
    using assms by (simp_all add: profile_termVector)
  let ?n = "euclideanNorm ?a * euclideanNorm ?b"
  let ?d = "\<Sum>k\<in>fst ` set ?a \<union> fst ` set ?b. weight ?a k * weight ?b k"
  note cs = cosineSimilarity_termVector[OF a b]
  have "0 \<le> (if ?n = 0 then 0 else ?d / ?n)" using guarded_quotient(1)[OF cs(2,3)] .
  moreover have "(if ?n = 0 then 0 else ?d / ?n) \<le> 1" using guarded_quotient(2)[OF cs(2,3)] .
  ultimately show ?thesis unfolding textSimilarityOf_def using cs(1) by blast
qed

subsection \<open>Sorting\<close>

lemma set_insertMatch: "set (insertMatch x ys) = insert x (set ys)"
  by (induction ys) auto

lemma length_insertMatch: "length (insertMatch x ys) = Suc (length ys)"
  by (induction ys) auto

lemma set_sortMatches: "set (sortMatches ms) = set ms"
  unfolding sortMatches_def by (induction ms) (simp_all add: set_insertMatch)

lemma length_sortMatches: "length (sortMatches ms) = length ms"
  unfolding sortMatches_def by (induction ms) (simp_all add: length_insertMatch)

lemma insertMatch_insort:
  assumes "\<exists>r. score x = Number r" and "\<forall>y\<in>set ys. \<exists>r. score y = Number r"
  shows "insertMatch x ys = insort_key (\<lambda>m. - numberOf (score m)) x ys"
  using assms by (induction ys) (auto simp: sortCompare_def)

lemma sortMatches_sort_key:
  assumes "\<forall>m\<in>set ms. \<exists>r. score m = Number r"
  shows "sortMatches ms = sort_key (\<lambda>m. - numberOf (score m)) ms"
  using assms
proof (induction ms)
  case Nil
  then show ?case by (simp add: sortMatches_def)
next
  case (Cons m ms)
  then have ih: "foldr insertMatch ms [] = sort_key (\<lambda>m. - numberOf (score m)) ms"
    by (simp add: sortMatches_def)
  have "\<forall>y\<in>set (sort_key (\<lambda>m. - numberOf (score m)) ms). \<exists>r. score y = Number r"
    using Cons.prems by simp
  with Cons.prems show ?case
    by (simp add: sortMatches_def ih insertMatch_insort)
qed

lemma insertMatch_rel:
  assumes "R x x'" and "list_all2 R ys ys'" and "\<And>a a'. R a a' \<Longrightarrow> score a = score a'"
  shows "list_all2 R (insertMatch x ys) (insertMatch x' ys')"
  using assms(2,1)
proof (induction rule: list_all2_induct)
  case Nil
  then show ?case by simp
next
  case (Cons y ys y' ys')
  have "sortCompare x y = sortCompare x' y'"
    using assms(3)[OF Cons.prems] assms(3)[OF Cons.hyps(1)] by (simp add: sortCompare_def)
  with Cons show ?case by simp
qed

lemma sortMatches_rel:
  assumes "list_all2 R ms ms'" and "\<And>a a'. R a a' \<Longrightarrow> score a = score a'"
  shows "list_all2 R (sortMatches ms) (sortMatches ms')"
  using assms(1)
proof (induction rule: list_all2_induct)
  case Nil
  then show ?case by (simp add: sortMatches_def)
next
  case (Cons m ms m' ms')
  then show ?case
    using insertMatch_rel[of R m m' "foldr insertMatch ms []" "foldr insertMatch ms' []"] assms(2)
    by (simp add: sortMatches_def)
qed

subsection \<open>Evaluation of one pair\<close>

lemmas string_eval = tokenize_def toLowerCase_def lowerChar_def isAlnum_def isSpace_def

lemmas object_eval = new_Set_def set_add_def increment_def js_get_def js_or_def
  objectPrototypeKeys_def

lemma text_spa: "buildProfileText (blank\<lparr>description := Some ''spa''\<rparr>) = '' spa   ''"
  by (simp add: buildProfileText_def blank_def orEmpty_def orNil_def)

lemma tokens_spa: "tokenize '' spa   '' = [''spa'']"
  by (simp add: string_eval)

lemma idf_spa_spa: "inverseDocumentFrequency ['' spa   '', '' spa   ''] = [(''spa'', Number 1)]"
  by (simp add: inverseDocumentFrequency_def tokens_spa object_eval)

lemma vector_spa: "tfidfVector '' spa   '' [(''spa'', Number 1)] = [(''spa'', Number 1)]"
  by (simp add: tfidfVector_def termFrequency_def tokens_spa object_eval)

lemma cos_spa: "cosineSimilarity [(''spa'', Number 1)] [(''spa'', Number 1)] = Number 1"
  by (simp add: cosineSimilarity_def cosineStep_def Let_def object_eval)

lemma tags_none: "tagOverlapScore [] [] = 0"
  by (simp add: tagOverlapScore_def new_Set_def)

lemma match_spa_spa:
  "computeMatches [blank\<lparr>description := Some ''spa''\<rparr>] [blank\<lparr>description := Some ''spa''\<rparr>] =
     [\<lparr> creator = blank\<lparr>description := Some ''spa''\<rparr>, hotel = blank\<lparr>description := Some ''spa''\<rparr>,
        score = Number 99, textSimilarity = Number 100, tagOverlap = Number 0,
        explanation = ''undefined'' @ [CHR 0x27] @ ''s content style aligns strongly with undefined''
           @ [CHR 0x27] @ ''s brand.'' \<rparr>]"
  apply (simp add: computeMatches_def allMatches_def text_spa idf_spa_spa vector_spa
      sortMatches_def matchOf_def cos_spa)
  apply (simp add: blank_def orNil_def orEmpty_def tags_none generateExplanation_def new_Set_def template_def)
  done

subsection \<open>The matches of a call\<close>

lemma allMatches_member:
  assumes "m \<in> set (allMatches cs hs)"
  shows "creator m \<in> set cs \<and> hotel m \<in> set hs \<and>
         (\<exists>t. 0 \<le> t \<and> t \<le> 1 \<and>
            textSimilarityOf cs hs (creator m) (hotel m) = Number t \<and>
            score m = Number (of_int (min (round ((t * 0.6 +
                        tagScoreOf (creator m) (hotel m) * 0.4) * 100 + 50)) 99)) \<and>
            textSimilarity m = Number (of_int (round (t * 100))) \<and>
            tagOverlap m = Number (of_int (round (tagScoreOf (creator m) (hotel m) * 100))))"
proof -
  let ?v = "\<lambda>p. tfidfVector (buildProfileText p) (corpusIdf cs hs)"
  from assms obtain c h where ch: "c \<in> set cs" "h \<in> set hs"
    and m: "m = matchOf (c, ?v c) (h, ?v h)"
    unfolding set_allMatches by auto
  from pair_similarity[OF ch] obtain t where t: "0 \<le> t" "t \<le> 1"
    "cosineSimilarity (?v c) (?v h) = Number t"
    unfolding textSimilarityOf_def by blast
  note f = matchOf_fields[OF t(3), of c h]
  show ?thesis
    unfolding m using ch t f
    by (auto simp: textSimilarityOf_def tagScoreOf_def intro!: exI[of _ t])
qed

lemma allMatches_numeric: "\<forall>m\<in>set (allMatches cs hs). \<exists>r. score m = Number r"
  using allMatches_member by blast

lemma computeMatches_sort_key:
  "computeMatches cs hs = sort_key (\<lambda>m. - numberOf (score m)) (allMatches cs hs)"
  unfolding computeMatches_def by (rule sortMatches_sort_key[OF allMatches_numeric])

lemma set_computeMatches: "set (computeMatches cs hs) = set (allMatches cs hs)"
  by (simp add: computeMatches_def set_sortMatches)

lemma length_computeMatches: "length (computeMatches cs hs) = length cs * length hs"
  by (simp add: computeMatches_def length_sortMatches length_allMatches)

lemma computeMatches_pairs:
  "mset (map (\<lambda>m. (creator m, hotel m)) (computeMatches cs hs)) = mset (List.product cs hs)"
proof -
  have "mset (computeMatches cs hs) = mset (allMatches cs hs)"
    unfolding computeMatches_sort_key by simp
  then have "mset (map (\<lambda>m. (creator m, hotel m)) (computeMatches cs hs)) =
      mset (map (\<lambda>m. (creator m, hotel m)) (allMatches cs hs))"
    by (simp only: mset_map)
  then show ?thesis by (simp only: allMatches_endpoints)
qed

lemma computeMatches_descending:
  assumes "Suc i < length (computeMatches cs hs)"
  shows "\<exists>x y. score (computeMatches cs hs ! i) = Number x \<and>
               score (computeMatches cs hs ! Suc i) = Number y \<and> y \<le> x"
proof -
  let ?r = "computeMatches cs hs"
  let ?f = "\<lambda>m. - numberOf (score m)"
  have "sorted (map ?f ?r)"
    unfolding computeMatches_sort_key by (rule sorted_sort_key)
  then have "map ?f ?r ! i \<le> map ?f ?r ! Suc i"
    using assms by (intro sorted_nth_mono) simp_all
  then have le: "numberOf (score (?r ! Suc i)) \<le> numberOf (score (?r ! i))"
    using assms by simp
  have "?r ! i \<in> set (allMatches cs hs)" "?r ! Suc i \<in> set (allMatches cs hs)"
    using assms set_computeMatches nth_mem[of i ?r] nth_mem[of "Suc i" ?r] by auto
  then obtain x y where "score (?r ! i) = Number x" "score (?r ! Suc i) = Number y"
    using allMatches_numeric by blast
  with le show ?thesis by simp
qed

lemma computeMatches_stable:
  "filter (\<lambda>m. score m = s) (computeMatches cs hs) = filter (\<lambda>m. score m = s) (allMatches cs hs)"
proof (cases s)
  case (Number r)
  let ?f = "\<lambda>m. - numberOf (score m)"
  have eq: "(score m = s) = (?f m = - r)" if "m \<in> set (allMatches cs hs)" for m
    using allMatches_numeric that Number by fastforce
  have "filter (\<lambda>m. score m = s) (computeMatches cs hs) = filter (\<lambda>m. ?f m = - r) (computeMatches cs hs)"
    using eq set_computeMatches by (intro filter_cong) auto
  also have "\<dots> = filter (\<lambda>m. ?f m = - r) (allMatches cs hs)"
    unfolding computeMatches_sort_key by (rule sort_key_stable)
  also have "\<dots> = filter (\<lambda>m. score m = s) (allMatches cs hs)"
    using eq by (intro filter_cong) auto
  finally show ?thesis .
next
  case Undefined
  then have "filter (\<lambda>m. score m = s) xs = []" if "set xs = set (allMatches cs hs)" for xs
    using that allMatches_numeric by (fastforce simp: filter_empty_conv)
  then show ?thesis using set_computeMatches by simp
next
  case NaN
  then have "filter (\<lambda>m. score m = s) xs = []" if "set xs = set (allMatches cs hs)" for xs
    using that allMatches_numeric by (fastforce simp: filter_empty_conv)
  then show ?thesis using set_computeMatches by simp
next
  case NonNumeric
  then have "filter (\<lambda>m. score m = s) xs = []" if "set xs = set (allMatches cs hs)" for xs
    using that allMatches_numeric by (fastforce simp: filter_empty_conv)
  then show ?thesis using set_computeMatches by simp
qed

subsection \<open>Worked examples\<close>

lemmas cosine_eval = cosineSimilarity_def cosineStep_def Let_def object_eval

lemma text_described: "buildProfileText (described d) = CHR '' '' # d @ ''   ''"
  by (simp add: buildProfileText_def described_def blank_def orEmpty_def orNil_def)

lemma text_rated: "buildProfileText ((described d)\<lparr>rating := r\<rparr>) = CHR '' '' # d @ ''   ''"
  by (simp add: buildProfileText_def described_def blank_def orEmpty_def orNil_def)

lemma text_blank: "buildProfileText blank = ''    ''"
  by (simp add: buildProfileText_def blank_def orEmpty_def orNil_def)

lemma tags_described: "orNil (tags (described d)) = []" "orNil (tags ((described d)\<lparr>rating := r\<rparr>)) = []"
  "orNil (tags blank) = []"
  by (simp_all add: described_def blank_def orNil_def)

lemma tokens_blank: "tokenize ''    '' = []"
  by (simp add: string_eval)

lemma ln_three_halves: "0 < ln (3 / 2 :: real) + 1"
proof -
  have "0 < ln (3 / 2 :: real)" by (rule ln_gt_zero) simp
  then show ?thesis by linarith
qed

text \<open>An empty profile and a spa lover against a spa hotel: the better pair moves to the
  front.\<close>

lemma example_reorder:
  "map (\<lambda>m. (creator m, hotel m, score m, textSimilarity m, tagOverlap m))
     (computeMatches [blank, described ''spa''] [described ''spa'']) =
   [(described ''spa'', described ''spa'', Number 99, Number 100, Number 0),
    (blank, described ''spa'', Number 50, Number 0, Number 0)]"
proof -
  define w :: real where "w = ln (3 / 2) + 1"
  have w: "0 < w" unfolding w_def by (rule ln_three_halves)
  have idf: "corpusIdf [blank, described ''spa''] [described ''spa''] = [(''spa'', Number w)]"
    by (simp add: corpusIdf_def text_blank text_described inverseDocumentFrequency_def
        tokens_spa tokens_blank object_eval w_def)
  have v0: "tfidfVector ''    '' [(''spa'', Number w)] = []"
    by (simp add: tfidfVector_def termFrequency_def tokens_blank)
  have v1: "tfidfVector '' spa   '' [(''spa'', Number w)] = [(''spa'', Number w)]"
    using w by (simp add: tfidfVector_def termFrequency_def tokens_spa object_eval)
  have c0: "cosineSimilarity [] [(''spa'', Number w)] = Number 0"
    using w by (simp add: cosine_eval)
  have c1: "cosineSimilarity [(''spa'', Number w)] [(''spa'', Number w)] = Number 1"
    using w by (simp add: cosine_eval)
  show ?thesis
    by (simp add: computeMatches_def allMatches_eq idf text_blank text_described v0 v1
        sortMatches_def sortCompare_def matchOf_def Let_def c0 c1 tags_described tags_none)
qed

text \<open>Two creators that differ in their rating only, against one hotel: equal scores, and
  the order of the input is kept.\<close>

lemma example_tie:
  "map (\<lambda>m. (creator m, hotel m, score m))
     (computeMatches [(described ''spa'')\<lparr>rating := Some ''1''\<rparr>, (described ''spa'')\<lparr>rating := Some ''2''\<rparr>]
        [described ''spa'']) =
   [((described ''spa'')\<lparr>rating := Some ''1''\<rparr>, described ''spa'', Number 99),
    ((described ''spa'')\<lparr>rating := Some ''2''\<rparr>, described ''spa'', Number 99)]"
proof -
  have idf: "corpusIdf [(described ''spa'')\<lparr>rating := Some ''1''\<rparr>, (described ''spa'')\<lparr>rating := Some ''2''\<rparr>]
        [described ''spa''] = [(''spa'', Number 1)]"
    by (simp add: corpusIdf_def text_rated text_described inverseDocumentFrequency_def
        tokens_spa object_eval)
  show ?thesis
    by (simp add: computeMatches_def allMatches_eq idf text_rated text_described vector_spa
        sortMatches_def sortCompare_def matchOf_def Let_def cos_spa tags_described tags_none)
qed

lemma example_reorder_scores:
  "map score (computeMatches [blank, described ''spa''] [described ''spa'']) =
     [Number 99, Number 50]"
  using arg_cong[OF example_reorder, of "map (\<lambda>(c, h, s, t, g). s)"] by (simp add: comp_def)

lemma example_tie_scores:
  "map score (computeMatches [(described ''spa'')\<lparr>rating := Some ''1''\<rparr>,
      (described ''spa'')\<lparr>rating := Some ''2''\<rparr>] [described ''spa'']) = [Number 99, Number 99]"
  using arg_cong[OF example_tie, of "map (\<lambda>(c, h, s). s)"] by (simp add: comp_def)

lemma ln_four_thirds: "0 < ln (4 / 3 :: real) + 1"
proof -
  have "0 < ln (4 / 3 :: real)" by (rule ln_gt_zero) simp
  then show ?thesis by linarith
qed

text \<open>An empty profile and a spa lover against two spa hotels: the two better pairs move
  to the front, each block in the order of the hotels.\<close>

lemma example_square:
  "map (\<lambda>m. (creator m, hotel m, score m))
     (computeMatches [blank, described ''spa'']
        [described ''spa'', (described ''spa'')\<lparr>rating := Some ''5''\<rparr>]) =
   [(described ''spa'', described ''spa'', Number 99),
    (described ''spa'', (described ''spa'')\<lparr>rating := Some ''5''\<rparr>, Number 99),
    (blank, described ''spa'', Number 50),
    (blank, (described ''spa'')\<lparr>rating := Some ''5''\<rparr>, Number 50)]"
proof -
  define w :: real where "w = ln (4 / 3) + 1"
  have w: "0 < w" unfolding w_def by (rule ln_four_thirds)
  have idf: "corpusIdf [blank, described ''spa'']
      [described ''spa'', (described ''spa'')\<lparr>rating := Some ''5''\<rparr>] = [(''spa'', Number w)]"
    by (simp add: corpusIdf_def text_blank text_described text_rated inverseDocumentFrequency_def
        tokens_spa tokens_blank object_eval w_def)
  have v0: "tfidfVector ''    '' [(''spa'', Number w)] = []"
    by (simp add: tfidfVector_def termFrequency_def tokens_blank)
  have v1: "tfidfVector '' spa   '' [(''spa'', Number w)] = [(''spa'', Number w)]"
    using w by (simp add: tfidfVector_def termFrequency_def tokens_spa object_eval)
  have c0: "cosineSimilarity [] [(''spa'', Number w)] = Number 0"
    using w by (simp add: cosine_eval)
  have c1: "cosineSimilarity [(''spa'', Number w)] [(''spa'', Number w)] = Number 1"
    using w by (simp add: cosine_eval)
  show ?thesis
    by (simp add: computeMatches_def allMatches_eq idf text_blank text_described text_rated v0 v1
        sortMatches_def sortCompare_def matchOf_def Let_def c0 c1 tags_described tags_none)
qed

lemma map_eq_two: "map f xs = [a, b] \<Longrightarrow> \<exists>x y. xs = [x, y] \<and> f x = a \<and> f y = b"
  by (auto simp: map_eq_Cons_conv)

subsection \<open>The weights of the other tokens\<close>

text \<open>For every token but \<open>constructor\<close> the weight is \<open>ln(N / documentCount) + 1\<close>; a token of every
  document has the weight 1.\<close>

lemma idf_weight:
  assumes "doc \<in> set documents" and "word \<in> set (tokenize doc)" and "word \<noteq> ''constructor''"
  shows "js_get (inverseDocumentFrequency documents) word =
           Number (ln (real (length documents) / real (documentCount documents word)) + 1)"
proof -
  have np: "word \<notin> set objectPrototypeKeys" using assms(2,3) token_inherited by blast
  have "word \<in> fst ` set (inverseDocumentFrequency documents)"
    using assms(1,2) idf_keys(2) by auto
  then obtain v where v: "(word, v) \<in> set (inverseDocumentFrequency documents)" by auto
  with idf_value[OF v] np js_get_own[OF idf_keys(1) v] show ?thesis by simp
qed

lemma idf_weight_everywhere:
  assumes "doc \<in> set documents" and "\<forall>d\<in>set documents. word \<in> set (tokenize d)"
    and "word \<noteq> ''constructor''"
  shows "js_get (inverseDocumentFrequency documents) word = Number 1"
proof -
  have "filter (\<lambda>d. word \<in> set (tokenize d)) documents = documents"
    using assms(2) by (simp add: filter_id_conv)
  then have "documentCount documents word = length documents" by (simp add: documentCount_def)
  moreover have "0 < length documents" using assms(1) by (cases documents) auto
  ultimately show ?thesis using idf_weight[OF assms(1) _ assms(3)] assms(1,2) by simp
qed

subsection \<open>Profiles that score alike\<close>

lemma list_all2_map_eq:
  assumes "list_all2 R xs ys" and "\<And>x y. R x y \<Longrightarrow> f y = f x"
  shows "map f ys = map f xs"
  using assms(1) by (induction rule: list_all2_induct) (simp_all add: assms(2))

lemma scores_matchOf:
  "scores (matchOf (c, v) (h, w)) =
     (let textSim = cosineSimilarity v w;
          tagScore = tagOverlapScore (orNil (tags c)) (orNil (tags h))
      in (Math_min (Math_round (js_plus (js_times (js_plus (js_times textSim (Number 0.6))
              (js_times (Number tagScore) (Number 0.4))) (Number 100)) (Number 50))) (Number 99),
          Math_round (js_times textSim (Number 100)),
          Math_round (js_times (Number tagScore) (Number 100))))"
  by (simp add: scores_def matchOf_def Let_def)

lemma allMatches_rel:
  assumes Rp: "\<And>p q. Rp p q \<Longrightarrow>
      buildProfileText q = buildProfileText p \<and> orNil (tags q) = orNil (tags p)"
    and cs: "list_all2 Rp cs cs'" and hs: "list_all2 Rp hs hs'"
  shows "list_all2 (\<lambda>m m'. Rp (creator m) (creator m') \<and> Rp (hotel m) (hotel m') \<and>
            scores m' = scores m) (allMatches cs hs) (allMatches cs' hs')"
proof -
  let ?R = "\<lambda>m m'. Rp (creator m) (creator m') \<and> Rp (hotel m) (hotel m') \<and> scores m' = scores m"
  have "list_all2 Rp (cs @ hs) (cs' @ hs')" using cs hs by (rule list_all2_appendI)
  then have "map buildProfileText (cs' @ hs') = map buildProfileText (cs @ hs)"
    by (rule list_all2_map_eq) (simp add: Rp)
  then have idf: "corpusIdf cs' hs' = corpusIdf cs hs" by (simp add: corpusIdf_def)
  define v where "v = (\<lambda>p. tfidfVector (buildProfileText p) (corpusIdf cs hs))"
  have one: "?R (matchOf (c, v c) (h, v h)) (matchOf (c', v c') (h', v h'))"
    if "Rp c c'" "Rp h h'" for c c' h h'
    using that Rp[OF that(1)] Rp[OF that(2)]
    by (simp add: matchOf_creator matchOf_hotel scores_matchOf v_def)
  have row: "list_all2 ?R (map (\<lambda>h. matchOf (c, v c) (h, v h)) hs)
      (map (\<lambda>h. matchOf (c', v c') (h, v h)) hs')" if "Rp c c'" for c c'
    using hs by (induction rule: list_all2_induct) (simp_all add: one[OF that])
  have "list_all2 ?R (concat (map (\<lambda>c. map (\<lambda>h. matchOf (c, v c) (h, v h)) hs) cs))
      (concat (map (\<lambda>c. map (\<lambda>h. matchOf (c, v c) (h, v h)) hs') cs'))"
    using cs by (induction rule: list_all2_induct) (simp_all add: row list_all2_appendI)
  then show ?thesis unfolding allMatches_eq idf v_def .
qed

lemma computeMatches_rel:
  assumes "\<And>p q. Rp p q \<Longrightarrow>
      buildProfileText q = buildProfileText p \<and> orNil (tags q) = orNil (tags p)"
    and "list_all2 Rp cs cs'" and "list_all2 Rp hs hs'"
  shows "list_all2 (\<lambda>m m'. Rp (creator m) (creator m') \<and> Rp (hotel m) (hotel m') \<and>
            scores m' = scores m) (computeMatches cs hs) (computeMatches cs' hs')"
  unfolding computeMatches_def
  by (rule sortMatches_rel[OF allMatches_rel[OF assms]]) (auto simp: scores_def)

lemma sameButDisplayFields_text:
  assumes "sameButDisplayFields p q"
  shows "buildProfileText q = buildProfileText p \<and> orNil (tags q) = orNil (tags p)"
proof -
  from assms have e: "q = p\<lparr>engagement := engagement q, rating := rating q, collabs := collabs q\<rparr>"
    by (simp add: sameButDisplayFields_def)
  have "name q = name p" using arg_cong[OF e, of name] by simp
  moreover have "description q = description p" using arg_cong[OF e, of description] by simp
  moreover have "tags q = tags p" using arg_cong[OF e, of tags] by simp
  moreover have "niche q = niche p" using arg_cong[OF e, of niche] by simp
  moreover have "location q = location p" using arg_cong[OF e, of location] by simp
  moreover have "type' q = type' p" using arg_cong[OF e, of type'] by simp
  ultimately show ?thesis by (simp add: buildProfileText_def)
qed


subsection \<open>Profiles without a common token\<close>

lemma disjoint_similarity:
  assumes "c \<in> set cs" and "h \<in> set hs"
    and "set (tokenize (buildProfileText c)) \<inter> set (tokenize (buildProfileText h)) = {}"
  shows "textSimilarityOf cs hs c h = Number 0"
proof -
  let ?a = "tfidfVector (buildProfileText c) (corpusIdf cs hs)"
  let ?b = "tfidfVector (buildProfileText h) (corpusIdf cs hs)"
  have a: "termVector ?a" and b: "termVector ?b"
    using assms(1,2) by (simp_all add: profile_termVector)
  have dis: "fst ` set ?a \<inter> fst ` set ?b = {}"
    using tfidfVector_keys(2)[of "buildProfileText c" "corpusIdf cs hs"]
      tfidfVector_keys(2)[of "buildProfileText h" "corpusIdf cs hs"] assms(3) by blast
  have z: "weight ?a k * weight ?b k = 0" for k
  proof (cases "k \<in> fst ` set ?a")
    case True
    with dis have "k \<notin> fst ` set ?b" by blast
    then show ?thesis by (simp add: weight_absent)
  next
    case False
    then show ?thesis by (simp add: weight_absent)
  qed
  have "(\<Sum>k\<in>fst ` set ?a \<union> fst ` set ?b. weight ?a k * weight ?b k) = 0"
    by (rule sum.neutral) (use z in blast)
  with cosineSimilarity_termVector(1)[OF a b] show ?thesis
    by (simp add: textSimilarityOf_def)
qed

lemma single_match:
  obtains m where "computeMatches [a] [b] = [m]" and "creator m = a" and "hotel m = b"
    and "m \<in> set (allMatches [a] [b])"
proof -
  have "length (computeMatches [a] [b]) = 1" by (simp add: length_computeMatches)
  then obtain m where m: "computeMatches [a] [b] = [m]"
    by (cases "computeMatches [a] [b]") auto
  then have "m \<in> set (allMatches [a] [b])"
    using set_computeMatches[of "[a]" "[b]"] by auto
  with allMatches_member[OF this] m that show ?thesis by simp
qed

lemma disjoint_scores:
  assumes "set (tokenize (buildProfileText a)) \<inter> set (tokenize (buildProfileText b)) = {}"
    and "set (map toLowerCase (orNil (tags a))) \<inter> set (map toLowerCase (orNil (tags b))) = {}"
  shows "map scores (computeMatches [a] [b]) = [(Number 50, Number 0, Number 0)]"
proof -
  obtain m where m: "computeMatches [a] [b] = [m]" "creator m = a" "hotel m = b"
    "m \<in> set (allMatches [a] [b])"
    by (rule single_match)
  have t: "textSimilarityOf [a] [b] a b = Number 0"
    using disjoint_similarity[of a "[a]" b "[b]"] assms(1) by simp
  have g: "tagScoreOf a b = 0"
    unfolding tagScoreOf_def by (rule tagOverlapScore_disjoint[OF assms(2)])
  from allMatches_member[OF m(4)] m(2,3) t g
  have "score m = Number 50" "textSimilarity m = Number 0" "tagOverlap m = Number 0"
    by auto
  with m(1) show ?thesis by (simp add: scores_def)
qed

subsection \<open>Examples with a niche and with a name\<close>

lemma text_niche: "buildProfileText (blank\<lparr>niche := Some n\<rparr>) = ''  '' @ n @ ''  ''"
  by (simp add: buildProfileText_def blank_def orEmpty_def orNil_def)

lemma tags_niche: "orNil (tags (blank\<lparr>niche := Some n\<rparr>)) = []"
  by (simp add: blank_def orNil_def)

lemma tokens_niche: "tokenize ''  spa  '' = [''spa'']" "tokenize ''  golf  '' = [''golf'']"
  by (simp_all add: string_eval)

text \<open>A creator whose niche is the word of the hotel's description.\<close>

lemma example_niche_spa:
  "map scores (computeMatches [blank\<lparr>niche := Some ''spa''\<rparr>] [described ''spa'']) =
     [(Number 99, Number 100, Number 0)]"
proof -
  have idf: "corpusIdf [blank\<lparr>niche := Some ''spa''\<rparr>] [described ''spa''] = [(''spa'', Number 1)]"
    by (simp add: corpusIdf_def text_niche text_described inverseDocumentFrequency_def
        tokens_spa tokens_niche object_eval)
  have v: "tfidfVector ''  spa  '' [(''spa'', Number 1)] = [(''spa'', Number 1)]"
    by (simp add: tfidfVector_def termFrequency_def tokens_niche object_eval)
  show ?thesis
    by (simp add: computeMatches_def allMatches_eq idf text_niche text_described vector_spa v
        sortMatches_def scores_matchOf cos_spa tags_described tags_niche tags_none)
qed

text \<open>The same creator with another niche.\<close>

lemma example_niche_golf:
  "map scores (computeMatches [blank\<lparr>niche := Some ''golf''\<rparr>] [described ''spa'']) =
     [(Number 50, Number 0, Number 0)]"
  by (rule disjoint_scores)
    (simp_all add: text_niche text_described tokens_niche tokens_spa tags_niche tags_described)

text \<open>Two profiles with the same name, descriptions without a common word, and no tags.\<close>

lemma ln_two_bounds: "0 \<le> ln (2::real)" "ln (2::real) \<le> 1"
proof -
  show "0 \<le> ln (2::real)" by simp
  show "ln (2::real) \<le> 1" using ln_le_minus_one[of "2::real"] by simp
qed

lemma text_named:
  "buildProfileText (blank\<lparr>name := Some n, description := Some d\<rparr>) = n @ '' '' @ d @ ''   ''"
  by (simp add: buildProfileText_def blank_def orEmpty_def orNil_def)

lemma tokens_named: "tokenize ''sam spa   '' = [''sam'', ''spa'']"
  "tokenize ''sam golf   '' = [''sam'', ''golf'']"
  by (simp_all add: string_eval)

lemma example_same_name:
  "\<exists>t. 1 / 5 \<le> t \<and>
     textSimilarityOf [blank\<lparr>name := Some ''sam'', description := Some ''spa''\<rparr>]
       [blank\<lparr>name := Some ''sam'', description := Some ''golf''\<rparr>]
       (blank\<lparr>name := Some ''sam'', description := Some ''spa''\<rparr>)
       (blank\<lparr>name := Some ''sam'', description := Some ''golf''\<rparr>) = Number t"
proof -
  define w :: real where "w = ln 2 + 1"
  have w: "1 \<le> w" "w \<le> 2" using ln_two_bounds by (simp_all add: w_def)
  then have w0: "0 < w" by simp
  let ?a = "blank\<lparr>name := Some ''sam'', description := Some ''spa''\<rparr>"
  let ?b = "blank\<lparr>name := Some ''sam'', description := Some ''golf''\<rparr>"
  have idf: "corpusIdf [?a] [?b] = [(''sam'', Number 1), (''spa'', Number w), (''golf'', Number w)]"
    by (simp add: corpusIdf_def text_named inverseDocumentFrequency_def
        tokens_named object_eval w_def)
  have va: "tfidfVector ''sam spa   '' [(''sam'', Number 1), (''spa'', Number w), (''golf'', Number w)]
      = [(''sam'', Number (1 / 2)), (''spa'', Number (w / 2))]"
    using w0 by (simp add: tfidfVector_def termFrequency_def tokens_named object_eval)
  have vb: "tfidfVector ''sam golf   '' [(''sam'', Number 1), (''spa'', Number w), (''golf'', Number w)]
      = [(''sam'', Number (1 / 2)), (''golf'', Number (w / 2))]"
    using w0 by (simp add: tfidfVector_def termFrequency_def tokens_named object_eval)
  have pos: "0 < 1 / 4 + (w / 2) * (w / 2)" using w0 by (simp add: add_pos_nonneg)
  have c: "cosineSimilarity [(''sam'', Number (1 / 2)), (''spa'', Number (w / 2))]
      [(''sam'', Number (1 / 2)), (''golf'', Number (w / 2))]
      = Number ((1 / 4) / (1 / 4 + (w / 2) * (w / 2)))"
    using w0 pos by (simp add: cosine_eval)
  have "w * w \<le> 2 * 2" using w by (intro mult_mono) simp_all
  then have "1 / 4 + (w / 2) * (w / 2) \<le> 5 / 4" by simp
  then have "1 / 5 \<le> (1 / 4) / (1 / 4 + (w / 2) * (w / 2))"
    using pos by (simp add: le_divide_eq)
  moreover have ta: "buildProfileText ?a = ''sam spa   ''" and tb: "buildProfileText ?b = ''sam golf   ''"
    by (simp_all add: text_named)
  moreover have "textSimilarityOf [?a] [?b] ?a ?b = Number ((1 / 4) / (1 / 4 + (w / 2) * (w / 2)))"
    by (simp only: textSimilarityOf_def idf ta tb va vb c)
  ultimately show ?thesis by (intro exI conjI)
qed

subsection \<open>The engine under an arithmetic: calls that cannot fail\<close>

lemma exact_simps [simp]:
  "ar_add exact = (+)" "ar_mul exact = (*)" "ar_div exact = (/)" "ar_sqrt exact = sqrt"
  "ar_log exact = ln" "ar_lit exact = (\<lambda>x. x)"
  by (simp_all add: exact_def)

lemma assign_js_set:
  assumes "arrayIndex key = None"
  shows "assign obj key v = js_set obj key v"
  using assms by (simp add: assign_def js_set_fresh)

lemma or_array_default: "or_array field (Some []) = Some (orNil field)"
  by (simp add: or_array_def orNil_def split: option.splits)

lemma or_string_default: "or_string field (Some []) = Some (orEmpty field)"
  by (simp add: or_string_def orEmpty_def split: option.splits)

lemma spread_Some: "spread (Some xs) = Inr xs"
  by (simp add: spread_def)

lemma map_method_Some: "map_method (Some xs) f = Inr (map f xs)"
  by (simp add: map_method_def)

lemma buildProfileText_js_eq: "buildProfileText_js p = Inr (buildProfileText p)"
  by (simp add: buildProfileText_js_def buildProfileText_def join_js_def comp_def
      or_array_default or_string_default spread_Some)

lemma array_map_Inr:
  assumes "\<And>x. x \<in> set xs \<Longrightarrow> f x = Inr (g x)"
  shows "array_map f xs = Inr (map g xs)"
  using assms by (induction xs) simp_all

lemma spread_undefined: "spread None = Inl TypeError"
  by (simp add: spread_def)


lemma tagOverlapScore_js_total: "\<exists>g. tagOverlapScore_js ar (Some a) (Some b) = Inr g"
  by (simp add: tagOverlapScore_js_def map_method_Some)

lemma tagScoreOf_js_total: "\<exists>g. tagScoreOf_js ar c h = Inr g"
  unfolding tagScoreOf_js_def or_array_default by (rule tagOverlapScore_js_total)


lemma generateExplanation_js_total: "\<exists>e. generateExplanation_js ar c h t g = Inr e"
  by (simp add: generateExplanation_js_def or_array_default map_method_Some)

lemma matchOf_js_fields:
  "\<exists>m g. matchOf_js ar (c, v) (h, w) = Inr m \<and> tagScoreOf_js ar c h = Inr g \<and>
     creator m = c \<and> hotel m = h \<and>
     score m = Math_min (Math_round (plus_js ar (times_js ar
                 (plus_js ar (times_js ar (cosineSimilarity_js ar v w) (Number (ar_lit ar 0.6)))
                    (times_js ar (Number g) (Number (ar_lit ar 0.4))))
                 (Number 100)) (Number 50))) (Number 99) \<and>
     textSimilarity m = Math_round (times_js ar (cosineSimilarity_js ar v w) (Number 100)) \<and>
     tagOverlap m = Math_round (times_js ar (Number g) (Number 100))"
proof -
  obtain g where g: "tagScoreOf_js ar c h = Inr g" using tagScoreOf_js_total by blast
  obtain e where e: "generateExplanation_js ar c h (cosineSimilarity_js ar v w) g = Inr e"
    using generateExplanation_js_total by blast
  from g have g': "tagOverlapScore_js ar (or_array (tags c) (Some [])) (or_array (tags h) (Some []))
      = Inr g" by (simp add: tagScoreOf_js_def)
  show ?thesis
    by (simp add: matchOf_js_def Let_def g g' e)
qed

lemma array_map_total:
  assumes "\<And>x. x \<in> set xs \<Longrightarrow> \<exists>y. f x = Inr y \<and> P x y"
  shows "\<exists>ys. array_map f xs = Inr ys \<and> list_all2 P xs ys"
  using assms
proof (induction xs)
  case Nil
  then show ?case by simp
next
  case (Cons x xs)
  from Cons.prems[of x] obtain y where y: "f x = Inr y" "P x y" by auto
  from Cons.IH Cons.prems obtain ys where ys: "array_map f xs = Inr ys" "list_all2 P xs ys"
    by auto
  from y ys show ?case by simp
qed

lemma computeMatches_js_eq:
  "computeMatches_js ar cs hs =
     (case array_map (\<lambda>(c, h). matchOf_js ar c h)
             (List.product
                (map (\<lambda>p. (p, tfidfVector_js ar (buildProfileText p) (corpusIdf_js ar cs hs))) cs)
                (map (\<lambda>p. (p, tfidfVector_js ar (buildProfileText p) (corpusIdf_js ar cs hs))) hs)) of
        Inl e \<Rightarrow> Inl e
      | Inr matches \<Rightarrow> Inr (sortMatches matches))"
proof -
  let ?idf = "inverseDocumentFrequency_js ar (map buildProfileText (cs @ hs))"
  let ?v = "\<lambda>p. (p, tfidfVector_js ar (buildProfileText p) ?idf)"
  have t: "array_map buildProfileText_js (cs @ hs) = Inr (map buildProfileText (cs @ hs))"
    by (rule array_map_Inr) (rule buildProfileText_js_eq)
  have v: "array_map (profileVector_js ar ?idf) ps = Inr (map ?v ps)" for ps
    by (rule array_map_Inr) (simp add: profileVector_js_def buildProfileText_js_eq)
  show ?thesis
    unfolding computeMatches_js_def Let_def t sum.case v corpusIdf_js_def ..
qed

text \<open>The matches before sorting, each with the pair it was made from.\<close>

lemma computeMatches_js_pairs:
  "\<exists>ms. computeMatches_js ar cs hs = Inr (sortMatches ms) \<and>
     list_all2
       (\<lambda>(c, h) m. \<exists>g. tagScoreOf_js ar c h = Inr g \<and> creator m = c \<and> hotel m = h \<and>
          score m = Math_min (Math_round (plus_js ar (times_js ar
                 (plus_js ar (times_js ar (textSimilarityOf_js ar cs hs c h) (Number (ar_lit ar 0.6)))
                    (times_js ar (Number g) (Number (ar_lit ar 0.4))))
                 (Number 100)) (Number 50))) (Number 99) \<and>
          textSimilarity m =
            Math_round (times_js ar (textSimilarityOf_js ar cs hs c h) (Number 100)) \<and>
          tagOverlap m = Math_round (times_js ar (Number g) (Number 100)))
       (List.product cs hs) ms"
proof -
  let ?v = "\<lambda>p. (p, tfidfVector_js ar (buildProfileText p) (corpusIdf_js ar cs hs))"
  let ?P = "\<lambda>(c, h) m. \<exists>g. tagScoreOf_js ar c h = Inr g \<and> creator m = c \<and> hotel m = h \<and>
          score m = Math_min (Math_round (plus_js ar (times_js ar
                 (plus_js ar (times_js ar (textSimilarityOf_js ar cs hs c h) (Number (ar_lit ar 0.6)))
                    (times_js ar (Number g) (Number (ar_lit ar 0.4))))
                 (Number 100)) (Number 50))) (Number 99) \<and>
          textSimilarity m =
            Math_round (times_js ar (textSimilarityOf_js ar cs hs c h) (Number 100)) \<and>
          tagOverlap m = Math_round (times_js ar (Number g) (Number 100))"
  let ?Q = "\<lambda>x m. ?P (fst (fst x), fst (snd x)) m"
  have "\<exists>m. (case x of (c, h) \<Rightarrow> matchOf_js ar c h) = Inr m \<and> ?Q x m"
    if "x \<in> set (List.product (map ?v cs) (map ?v hs))" for x
  proof -
    from that obtain c h where x: "x = (?v c, ?v h)" by auto
    from matchOf_js_fields[of ar c "snd (?v c)" h "snd (?v h)"]
    show ?thesis unfolding x by (auto simp: textSimilarityOf_js_def)
  qed
  from array_map_total[of "List.product (map ?v cs) (map ?v hs)"
      "\<lambda>(c, h). matchOf_js ar c h" ?Q, OF this]
  obtain ms where ms: "array_map (\<lambda>(c, h). matchOf_js ar c h)
      (List.product (map ?v cs) (map ?v hs)) = Inr ms"
    and all2: "list_all2 ?Q (List.product (map ?v cs) (map ?v hs)) ms"
    by blast
  have "List.product (map f xs) (map f ys) = map (\<lambda>(c, h). (f c, f h)) (List.product xs ys)"
    for f :: "profile \<Rightarrow> profile \<times> jsobject" and xs ys
    by (induction xs) (simp_all add: comp_def)
  then have "List.product (map ?v cs) (map ?v hs) =
      map (\<lambda>(c, h). (?v c, ?v h)) (List.product cs hs)" .
  with all2 have "list_all2 ?P (List.product cs hs) ms"
    by (simp add: list_all2_map1 case_prod_unfold)
  moreover have "computeMatches_js ar cs hs = Inr (sortMatches ms)"
    unfolding computeMatches_js_eq ms by simp
  ultimately show ?thesis by blast
qed

subsection \<open>The engine under an arithmetic: absent fields and their defaults\<close>





lemma computeMatches_js_members:
  "\<exists>ms. computeMatches_js ar cs hs = Inr ms \<and>
     (\<forall>m \<in> set ms. creator m \<in> set cs \<and> hotel m \<in> set hs \<and>
        (\<exists>tagScore rawScore.
           tagScoreOf_js ar (creator m) (hotel m) = Inr tagScore \<and>
           rawScore = plus_js ar
             (times_js ar (textSimilarityOf_js ar cs hs (creator m) (hotel m))
                (Number (ar_lit ar 0.6)))
             (times_js ar (Number tagScore) (Number (ar_lit ar 0.4))) \<and>
           score m = Math_min (Math_round (plus_js ar (times_js ar rawScore (Number 100))
                       (Number 50))) (Number 99)))"
proof -
  let ?P = "\<lambda>(c, h) m. \<exists>g. tagScoreOf_js ar c h = Inr g \<and> creator m = c \<and> hotel m = h \<and>
          score m = Math_min (Math_round (plus_js ar (times_js ar
                 (plus_js ar (times_js ar (textSimilarityOf_js ar cs hs c h) (Number (ar_lit ar 0.6)))
                    (times_js ar (Number g) (Number (ar_lit ar 0.4))))
                 (Number 100)) (Number 50))) (Number 99) \<and>
          textSimilarity m =
            Math_round (times_js ar (textSimilarityOf_js ar cs hs c h) (Number 100)) \<and>
          tagOverlap m = Math_round (times_js ar (Number g) (Number 100))"
  from computeMatches_js_pairs[of ar cs hs] obtain ms where
    ms: "computeMatches_js ar cs hs = Inr (sortMatches ms)"
    and a: "list_all2 ?P (List.product cs hs) ms" by blast
  have "creator m \<in> set cs \<and> hotel m \<in> set hs \<and>
        (\<exists>tagScore rawScore.
           tagScoreOf_js ar (creator m) (hotel m) = Inr tagScore \<and>
           rawScore = plus_js ar
             (times_js ar (textSimilarityOf_js ar cs hs (creator m) (hotel m))
                (Number (ar_lit ar 0.6)))
             (times_js ar (Number tagScore) (Number (ar_lit ar 0.4))) \<and>
           score m = Math_min (Math_round (plus_js ar (times_js ar rawScore (Number 100))
                       (Number 50))) (Number 99))"
    if "m \<in> set (sortMatches ms)" for m
  proof -
    from that have "m \<in> set ms" by (simp add: set_sortMatches)
    then obtain i where i: "i < length ms" "ms ! i = m" by (auto simp: in_set_conv_nth)
    then have il: "i < length (List.product cs hs)" using list_all2_lengthD[OF a] by simp
    from list_all2_nthD2[OF a i(1)] i(2) have p: "?P (List.product cs hs ! i) m" by simp
    obtain c h where ch: "List.product cs hs ! i = (c, h)" by (cases "List.product cs hs ! i")
    then have "(c, h) \<in> set (List.product cs hs)" using nth_mem[OF il] by simp
    then have "c \<in> set cs" "h \<in> set hs" by auto
    with p ch show ?thesis by auto
  qed
  with ms show ?thesis by blast
qed

subsection \<open>The engine under an arithmetic: examples in exact arithmetic\<close>

lemmas object_js_eval = new_Set_def set_add_def increment_js_def assign_def arrayIndex_def
  isDigit_def js_get_def js_or_def objectPrototypeKeys_def

lemmas cosine_js_eval = cosineSimilarity_js_def cosineStep_js_def Let_def object_js_eval


lemma tokens_mixed: "tokenize '' spa spa golf   '' = [''spa'', ''spa'', ''golf'']"
  "tokenize '' spa golf golf   '' = [''spa'', ''golf'', ''golf'']"
  by (simp_all add: string_eval)

lemma tagScoreOf_js_none:
  assumes "orNil (tags c) = []" and "orNil (tags h) = []"
  shows "tagScoreOf_js ar c h = Inr 0"
  using assms
  by (simp add: tagScoreOf_js_def or_array_default tagOverlapScore_js_def map_method_Some new_Set_def)


text \<open>Two descriptions with the same two words in other proportions.\<close>

lemma example_mixed_js:
  "textSimilarityOf_js exact [described ''spa spa golf''] [described ''spa golf golf'']
     (described ''spa spa golf'') (described ''spa golf golf'') = Number (4 / 5)"
proof -
  have idf: "corpusIdf_js exact [described ''spa spa golf''] [described ''spa golf golf''] =
      [(''spa'', Number 1), (''golf'', Number 1)]"
    by (simp add: corpusIdf_js_def text_described inverseDocumentFrequency_js_def tokens_mixed
        object_js_eval)
  have va: "tfidfVector_js exact '' spa spa golf   '' [(''spa'', Number 1), (''golf'', Number 1)] =
      [(''spa'', Number (2 / 3)), (''golf'', Number (1 / 3))]"
    by (simp add: tfidfVector_js_def termFrequency_js_def tokens_mixed object_js_eval)
  have vb: "tfidfVector_js exact '' spa golf golf   '' [(''spa'', Number 1), (''golf'', Number 1)] =
      [(''spa'', Number (1 / 3)), (''golf'', Number (2 / 3))]"
    by (simp add: tfidfVector_js_def termFrequency_js_def tokens_mixed object_js_eval)
  have c: "cosineSimilarity_js exact [(''spa'', Number (2 / 3)), (''golf'', Number (1 / 3))]
      [(''spa'', Number (1 / 3)), (''golf'', Number (2 / 3))] = Number (4 / 5)"
    by (simp add: cosine_js_eval)
  have ta: "buildProfileText (described ''spa spa golf'') = '' spa spa golf   ''"
    and tb: "buildProfileText (described ''spa golf golf'') = '' spa golf golf   ''"
    by (simp_all add: text_described)
  show ?thesis by (simp only: textSimilarityOf_js_def idf ta tb va vb c)
qed

lemma single_match_js:
  "\<exists>m g. computeMatches_js ar [a] [b] = Inr [m] \<and> tagScoreOf_js ar a b = Inr g \<and>
     creator m = a \<and> hotel m = b \<and>
     score m = Math_min (Math_round (plus_js ar (times_js ar
                 (plus_js ar (times_js ar (textSimilarityOf_js ar [a] [b] a b) (Number (ar_lit ar 0.6)))
                    (times_js ar (Number g) (Number (ar_lit ar 0.4))))
                 (Number 100)) (Number 50))) (Number 99) \<and>
     textSimilarity m = Math_round (times_js ar (textSimilarityOf_js ar [a] [b] a b) (Number 100)) \<and>
     tagOverlap m = Math_round (times_js ar (Number g) (Number 100))"
proof -
  from computeMatches_js_pairs[of ar "[a]" "[b]"] obtain ms where
    ms: "computeMatches_js ar [a] [b] = Inr (sortMatches ms)"
    and p: "list_all2
       (\<lambda>(c, h) m. \<exists>g. tagScoreOf_js ar c h = Inr g \<and> creator m = c \<and> hotel m = h \<and>
          score m = Math_min (Math_round (plus_js ar (times_js ar
                 (plus_js ar (times_js ar (textSimilarityOf_js ar [a] [b] c h) (Number (ar_lit ar 0.6)))
                    (times_js ar (Number g) (Number (ar_lit ar 0.4))))
                 (Number 100)) (Number 50))) (Number 99) \<and>
          textSimilarity m =
            Math_round (times_js ar (textSimilarityOf_js ar [a] [b] c h) (Number 100)) \<and>
          tagOverlap m = Math_round (times_js ar (Number g) (Number 100)))
       (List.product [a] [b]) ms" by blast
  from p obtain m where m: "ms = [m]" by (auto simp: list_all2_Cons1)
  have "sortMatches [m] = [m]" by (simp add: sortMatches_def)
  with ms p m show ?thesis by auto
qed

section \<open>The claims\<close>

subsection \<open>Claim C1\<close>

text \<open>
  Claim C1, as stated: \<open>niche\<close>, \<open>location\<close>, \<open>type\<close>, \<open>engagement\<close>, \<open>rating\<close> and
  \<open>collabs\<close> never influence a score.  It fails for \<open>niche\<close> (and likewise for \<open>location\<close>
  and \<open>type\<close>), which \<open>buildProfileText\<close> puts into the text that is vectorized: two
  creators that differ in their niche only get the scores 99 and 50 against the same
  hotel.
\<close>

theorem C1_counterexample:
  "sameButAuxiliaryFields (blank\<lparr>niche := Some ''spa''\<rparr>) (blank\<lparr>niche := Some ''golf''\<rparr>) \<and>
   map scores (computeMatches [blank\<lparr>niche := Some ''spa''\<rparr>] [described ''spa'']) =
     [(Number 99, Number 100, Number 0)] \<and>
   map scores (computeMatches [blank\<lparr>niche := Some ''golf''\<rparr>] [described ''spa'']) =
     [(Number 50, Number 0, Number 0)]"
proof -
  have "sameButAuxiliaryFields (blank\<lparr>niche := Some ''spa''\<rparr>) (blank\<lparr>niche := Some ''golf''\<rparr>)"
    by (simp add: sameButAuxiliaryFields_def blank_def)
  with example_niche_spa example_niche_golf show ?thesis by blast
qed

text \<open>
  Claim C1, amended: \<open>engagement\<close>, \<open>rating\<close> and \<open>collabs\<close> never influence a score.  For
  two inputs that are identical except in those fields of some profiles,
  \<open>computeMatches\<close> returns the pairs in the same order and, for every pair, the same
  displayed score, the same text similarity and the same tag overlap.
\<close>

theorem C1_display_fields:
  assumes "list_all2 sameButDisplayFields creators creators'"
    and "list_all2 sameButDisplayFields hotels hotels'"
  shows "list_all2
           (\<lambda>m m'. sameButDisplayFields (creator m) (creator m') \<and>
                    sameButDisplayFields (hotel m) (hotel m') \<and>
                    score m' = score m \<and> textSimilarity m' = textSimilarity m \<and>
                    tagOverlap m' = tagOverlap m)
           (computeMatches creators hotels) (computeMatches creators' hotels')"
proof -
  have "list_all2 (\<lambda>m m'. sameButDisplayFields (creator m) (creator m') \<and>
           sameButDisplayFields (hotel m) (hotel m') \<and> scores m' = scores m)
         (computeMatches creators hotels) (computeMatches creators' hotels')"
    using sameButDisplayFields_text assms by (rule computeMatches_rel)
  then show ?thesis
    by (rule list_all2_mono) (simp add: scores_def)
qed

text \<open>The amended claim at a creator with and without an engagement, a rating and a
  number of collaborations: the score is 99 both times.\<close>

theorem C1_display_fields_witness:
  "list_all2 sameButDisplayFields [described ''spa'']
     [(described ''spa'')\<lparr>engagement := Some ''9.5%'', rating := Some ''4.8'', collabs := Some ''12''\<rparr>] \<and>
   list_all2 sameButDisplayFields [described ''spa''] [described ''spa''] \<and>
   map score (computeMatches [described ''spa''] [described ''spa'']) = [Number 99] \<and>
   map score (computeMatches
       [(described ''spa'')\<lparr>engagement := Some ''9.5%'', rating := Some ''4.8'', collabs := Some ''12''\<rparr>]
       [described ''spa'']) = [Number 99]"
proof -
  let ?c = "(described ''spa'')\<lparr>engagement := Some ''9.5%'', rating := Some ''4.8'', collabs := Some ''12''\<rparr>"
  have h1: "list_all2 sameButDisplayFields [described ''spa''] [?c]"
    by (simp add: sameButDisplayFields_def described_def blank_def)
  have h2: "list_all2 sameButDisplayFields [described ''spa''] [described ''spa'']"
    by (simp add: sameButDisplayFields_def described_def blank_def)
  have s: "map score (computeMatches [described ''spa''] [described ''spa'']) = [Number 99]"
    using match_spa_spa by (simp add: described_def)
  then obtain m where m: "computeMatches [described ''spa''] [described ''spa''] = [m]"
    "score m = Number 99" by (auto simp: map_eq_Cons_conv)
  from C1_display_fields[OF h1 h2] m
  have "map score (computeMatches [?c] [described ''spa'']) = [Number 99]"
    by (auto simp: list_all2_Cons1)
  with h1 h2 s show ?thesis by simp
qed

subsection \<open>Claim C2\<close>

text \<open>
  Claim C2.  Under every arithmetic, that of IEEE-754 doubles included, \<open>computeMatches\<close>
  returns, and every match it returns pairs a creator and a hotel of the input; its raw
  score is the cosine similarity of the two TF-IDF vectors times 0.6 plus the tag overlap
  of the two tag lists times 0.4, and its displayed score is
  \<open>min(round(rawScore * 100 + 50), 99)\<close>, where \<open>*\<close> and \<open>+\<close> are the operators of JavaScript
  with the arithmetic at hand, and 0.6 and 0.4 are the literals as this arithmetic reads
  them.
\<close>

theorem C2_blended_score:
  "\<exists>ms. computeMatches_js ar creators hotels = Inr ms \<and>
     (\<forall>m \<in> set ms. creator m \<in> set creators \<and> hotel m \<in> set hotels \<and>
        (\<exists>tagScore rawScore.
           tagScoreOf_js ar (creator m) (hotel m) = Inr tagScore \<and>
           rawScore = plus_js ar
             (times_js ar (textSimilarityOf_js ar creators hotels (creator m) (hotel m))
                (Number (ar_lit ar 0.6)))
             (times_js ar (Number tagScore) (Number (ar_lit ar 0.4))) \<and>
           score m = Math_min (Math_round (plus_js ar (times_js ar rawScore (Number 100))
                       (Number 50))) (Number 99)))"
  by (rule computeMatches_js_members)

text \<open>The claim in exact arithmetic at two descriptions with the same two words in other
  proportions: similarity 4/5, no tags, raw score 0.48, and the displayed score 98.\<close>

theorem C2_blended_score_witness:
  "textSimilarityOf_js exact [described ''spa spa golf''] [described ''spa golf golf'']
     (described ''spa spa golf'') (described ''spa golf golf'') = Number (4 / 5) \<and>
   tagScoreOf_js exact (described ''spa spa golf'') (described ''spa golf golf'') = Inr 0 \<and>
   Math_min (Math_round (Number ((4 / 5 * 0.6 + 0 * 0.4) * 100 + 50))) (Number 99) = Number 98 \<and>
   map_sum id (map score)
     (computeMatches_js exact [described ''spa spa golf''] [described ''spa golf golf'']) =
     Inr [Number 98]"
proof -
  let ?a = "described ''spa spa golf''" and ?b = "described ''spa golf golf''"
  note t = example_mixed_js
  have g: "tagScoreOf_js exact ?a ?b = Inr 0"
    by (rule tagScoreOf_js_none) (simp_all add: tags_described)
  have f: "Math_min (Math_round (Number ((4 / 5 * 0.6 + 0 * 0.4) * 100 + 50))) (Number 99) = Number 98"
    by simp
  from C2_blended_score[of exact "[?a]" "[?b]"] obtain ms where
    ms: "computeMatches_js exact [?a] [?b] = Inr ms"
    and s: "\<forall>m \<in> set ms. creator m \<in> set [?a] \<and> hotel m \<in> set [?b] \<and>
        (\<exists>tagScore rawScore.
           tagScoreOf_js exact (creator m) (hotel m) = Inr tagScore \<and>
           rawScore = plus_js exact
             (times_js exact (textSimilarityOf_js exact [?a] [?b] (creator m) (hotel m))
                (Number (ar_lit exact 0.6)))
             (times_js exact (Number tagScore) (Number (ar_lit exact 0.4))) \<and>
           score m = Math_min (Math_round (plus_js exact (times_js exact rawScore (Number 100))
                       (Number 50))) (Number 99))"
    by blast
  from single_match_js[of exact ?a ?b] ms obtain m where m: "ms = [m]" by auto
  with s have "creator m = ?a" "hotel m = ?b" by simp_all
  with s m t g have "score m = Number 98" by simp
  with ms m t g f show ?thesis by simp
qed

subsection \<open>Claim C3\<close>

text \<open>
  Claim C3.  \<open>computeMatches\<close> returns one match for every pair of a creator and a hotel:
  \<open>|creators| * |hotels|\<close> matches, whose pairs are, counted with their multiplicity, the
  full cross product of the two inputs; and every displayed score is an integer from 50 to
  99.
\<close>

theorem C3_cross_product:
  "length (computeMatches creators hotels) = length creators * length hotels \<and>
   mset (map (\<lambda>m. (creator m, hotel m)) (computeMatches creators hotels)) =
     mset (List.product creators hotels) \<and>
   (\<forall>m \<in> set (computeMatches creators hotels).
      \<exists>n::int. score m = Number (of_int n) \<and> 50 \<le> n \<and> n \<le> 99)"
proof (intro conjI)
  show "length (computeMatches creators hotels) = length creators * length hotels"
    by (rule length_computeMatches)
  show "mset (map (\<lambda>m. (creator m, hotel m)) (computeMatches creators hotels)) =
     mset (List.product creators hotels)"
    by (rule computeMatches_pairs)
  show "\<forall>m \<in> set (computeMatches creators hotels).
      \<exists>n::int. score m = Number (of_int n) \<and> 50 \<le> n \<and> n \<le> 99"
  proof
    fix m assume "m \<in> set (computeMatches creators hotels)"
    then have "m \<in> set (allMatches creators hotels)" by (simp add: set_computeMatches)
    from allMatches_member[OF this] obtain t where t: "0 \<le> t"
      and s: "score m = Number (of_int (min (round ((t * 0.6 +
                tagScoreOf (creator m) (hotel m) * 0.4) * 100 + 50)) 99))"
      by blast
    have g: "0 \<le> tagScoreOf (creator m) (hotel m)"
      by (simp add: tagScoreOf_def tagOverlapScore_nonneg)
    from score_bounds[OF t g] s
    show "\<exists>n::int. score m = Number (of_int n) \<and> 50 \<le> n \<and> n \<le> 99" by blast
  qed
qed

text \<open>The claim at two creators and two hotels: four matches, one for each pair, with the
  scores 99, 99, 50 and 50.\<close>

theorem C3_cross_product_witness:
  "length (computeMatches [blank, described ''spa'']
       [described ''spa'', (described ''spa'')\<lparr>rating := Some ''5''\<rparr>]) = 2 * 2 \<and>
   mset (map (\<lambda>m. (creator m, hotel m))
       (computeMatches [blank, described ''spa'']
          [described ''spa'', (described ''spa'')\<lparr>rating := Some ''5''\<rparr>])) =
     mset [(blank, described ''spa''), (blank, (described ''spa'')\<lparr>rating := Some ''5''\<rparr>),
           (described ''spa'', described ''spa''),
           (described ''spa'', (described ''spa'')\<lparr>rating := Some ''5''\<rparr>)] \<and>
   map (\<lambda>m. (creator m, hotel m, score m))
     (computeMatches [blank, described ''spa'']
        [described ''spa'', (described ''spa'')\<lparr>rating := Some ''5''\<rparr>]) =
   [(described ''spa'', described ''spa'', Number (of_int 99)),
    (described ''spa'', (described ''spa'')\<lparr>rating := Some ''5''\<rparr>, Number (of_int 99)),
    (blank, described ''spa'', Number (of_int 50)),
    (blank, (described ''spa'')\<lparr>rating := Some ''5''\<rparr>, Number (of_int 50))] \<and>
   (50::int) \<le> 99 \<and> (50::int) \<le> 50"
  using C3_cross_product[of "[blank, described ''spa'']"
      "[described ''spa'', (described ''spa'')\<lparr>rating := Some ''5''\<rparr>]"]
    example_square
  by simp

subsection \<open>Claim C4\<close>

text \<open>
  Claim C4.  The matches come in descending order of the displayed score: the score at
  position \<open>i\<close> is at least the score at position \<open>i + 1\<close>.
\<close>

theorem C4_descending:
  "\<forall>i. Suc i < length (computeMatches creators hotels) \<longrightarrow>
     (\<exists>x y. score (computeMatches creators hotels ! i) = Number x \<and>
            score (computeMatches creators hotels ! Suc i) = Number y \<and> y \<le> x)"
  using computeMatches_descending by blast

text \<open>The claim at an input whose better pair is generated last: the output starts with
  the score 99 and ends with the score 50.\<close>

theorem C4_descending_witness:
  "Suc 0 < length (computeMatches [blank, described ''spa''] [described ''spa'']) \<and>
   score (computeMatches [blank, described ''spa''] [described ''spa''] ! 0) = Number 99 \<and>
   score (computeMatches [blank, described ''spa''] [described ''spa''] ! Suc 0) = Number 50 \<and>
   (50::real) \<le> 99"
proof -
  let ?r = "computeMatches [blank, described ''spa''] [described ''spa'']"
  have l: "Suc 0 < length ?r" by (simp add: length_computeMatches)
  from map_eq_two[OF example_reorder_scores] obtain m1 m2 where
    r: "?r = [m1, m2]" and "score m1 = Number 99" "score m2 = Number 50" by blast
  then have s: "score (?r ! 0) = Number 99" "score (?r ! Suc 0) = Number 50" by simp_all
  from C4_descending[of "[blank, described ''spa'']" "[described ''spa'']"] l s
  show ?thesis by simp
qed

subsection \<open>Claim C5\<close>



subsection \<open>Claim C8\<close>

text \<open>
  Claim C8.  For a corpus of \<open>N\<close> documents \<open>inverseDocumentFrequency\<close> should give every
  token that occurs in a document the weight \<open>ln(N / documentCount) + 1\<close>.  It does so for
  every token but \<open>constructor\<close>: there the count read \<open>idf[word] || 0\<close> finds
  \<open>Object.prototype.constructor\<close>, \<open>+ 1\<close> makes a string of it, and the weight is \<open>NaN\<close>
  where the claim says \<open>ln(1 / 1) + 1 = 1\<close>.  \<open>computeMatches\<close> runs into it with a profile
  whose description is that word.
\<close>

theorem C8_idf_constructor:
  "documentCount [''constructor''] ''constructor'' = 1 \<and>
   inverseDocumentFrequency [''constructor''] = [(''constructor'', NaN)] \<and>
   js_get (inverseDocumentFrequency [''constructor'']) ''constructor'' \<noteq>
     Number (ln (real (length [''constructor'']) / real (documentCount [''constructor''] ''constructor'')) + 1) \<and>
   corpusIdf [described ''constructor''] [] = [(''constructor'', NaN)]"
proof -
  have "tokenize '' constructor   '' = [''constructor'']"
    by (simp add: string_eval)
  then have "corpusIdf [described ''constructor''] [] = [(''constructor'', NaN)]"
    by (simp add: corpusIdf_def text_described inverseDocumentFrequency_def object_eval)
  then show ?thesis
    by (simp add: documentCount_def tokenize_constructor idf_constructor js_get_def)
qed

subsection \<open>Claim C9\<close>

text \<open>
  Claim C9, as stated: two profiles whose descriptions share no token and whose tag sets
  are disjoint get the displayed score 50 and the sub-scores 0.  It fails when the
  profiles share a token elsewhere in the text that \<open>buildProfileText\<close> assembles: two
  profiles with the name \<open>sam\<close>, the descriptions \<open>spa\<close> and \<open>golf\<close> and no tags do not get
  the score 50.
\<close>

theorem C9_counterexample:
  "set (tokenize ''spa'') \<inter> set (tokenize ''golf'') = {} \<and>
   tags (blank\<lparr>name := Some ''sam'', description := Some ''spa''\<rparr>) = None \<and>
   tags (blank\<lparr>name := Some ''sam'', description := Some ''golf''\<rparr>) = None \<and>
   map score (computeMatches [blank\<lparr>name := Some ''sam'', description := Some ''spa''\<rparr>]
       [blank\<lparr>name := Some ''sam'', description := Some ''golf''\<rparr>]) \<noteq> [Number 50]"
proof -
  let ?a = "blank\<lparr>name := Some ''sam'', description := Some ''spa''\<rparr>"
  let ?b = "blank\<lparr>name := Some ''sam'', description := Some ''golf''\<rparr>"
  obtain m where m: "computeMatches [?a] [?b] = [m]" "creator m = ?a" "hotel m = ?b"
    "m \<in> set (allMatches [?a] [?b])"
    by (rule single_match)
  from example_same_name obtain t where t: "1 / 5 \<le> t"
    "textSimilarityOf [?a] [?b] ?a ?b = Number t" by blast
  have g: "0 \<le> tagScoreOf ?a ?b" by (simp add: tagScoreOf_def tagOverlapScore_nonneg)
  from allMatches_member[OF m(4)] m(2,3) t(2)
  have s: "score m = Number (of_int (min (round ((t * 0.6 + tagScoreOf ?a ?b * 0.4) * 100 + 50)) 99))"
    by auto
  have "62 \<le> (t * 0.6 + tagScoreOf ?a ?b * 0.4) * 100 + 50" using t(1) g by simp
  then have "round (62::real) \<le> round ((t * 0.6 + tagScoreOf ?a ?b * 0.4) * 100 + 50)"
    by (rule round_mono)
  then have "62 \<le> min (round ((t * 0.6 + tagScoreOf ?a ?b * 0.4) * 100 + 50)) 99" by simp
  with s have "score m \<noteq> Number 50" by auto
  moreover have "set (tokenize ''spa'') \<inter> set (tokenize ''golf'') = {}"
    by (simp add: string_eval)
  ultimately show ?thesis using m(1) by (simp add: blank_def)
qed

text \<open>
  Claim C9, amended: two profiles whose texts, as \<open>buildProfileText\<close> assembles them from
  name, description, tags, niche, location and type, share no token, and whose tag sets
  are disjoint, get one match with the displayed score 50, the text similarity 0 and the
  tag overlap 0.
\<close>

theorem C9_disjoint_profiles:
  assumes "set (tokenize (buildProfileText a)) \<inter> set (tokenize (buildProfileText b)) = {}"
    and "set (map toLowerCase (orNil (tags a))) \<inter> set (map toLowerCase (orNil (tags b))) = {}"
  shows "map scores (computeMatches [a] [b]) = [(Number 50, Number 0, Number 0)]"
  using assms by (rule disjoint_scores)

text \<open>The amended claim at a golf creator and a spa hotel with different tags.\<close>

theorem C9_disjoint_profiles_witness:
  "set (tokenize (buildProfileText ((described ''golf'')\<lparr>tags := Some [''Links'']\<rparr>))) \<inter>
     set (tokenize (buildProfileText ((described ''spa'')\<lparr>tags := Some [''Sauna'']\<rparr>))) = {} \<and>
   map scores (computeMatches [(described ''golf'')\<lparr>tags := Some [''Links'']\<rparr>]
       [(described ''spa'')\<lparr>tags := Some [''Sauna'']\<rparr>]) = [(Number 50, Number 0, Number 0)]"
proof -
  let ?a = "(described ''golf'')\<lparr>tags := Some [''Links'']\<rparr>"
  let ?b = "(described ''spa'')\<lparr>tags := Some [''Sauna'']\<rparr>"
  have ta: "tokenize (buildProfileText ?a) = [''golf'', ''links'']"
    by code_simp
  have tb: "tokenize (buildProfileText ?b) = [''spa'', ''sauna'']"
    by code_simp
  have h1: "set (tokenize (buildProfileText ?a)) \<inter> set (tokenize (buildProfileText ?b)) = {}"
    by (simp add: ta tb)
  have "toLowerCase ''Links'' = ''links''" "toLowerCase ''Sauna'' = ''sauna''"
    by code_simp+
  then have h2: "set (map toLowerCase (orNil (tags ?a))) \<inter> set (map toLowerCase (orNil (tags ?b))) = {}"
    by (simp add: described_def blank_def orNil_def)
  from C9_disjoint_profiles[OF h1 h2] h1 show ?thesis by simp
qed

subsection \<open>Claim C10\<close>

text \<open>
  Claim C10.  Matches with equal displayed scores keep the order in which they were
  generated, and they are generated creator by creator in the order of the input, and for
  one creator hotel by hotel in the order of the input.
\<close>

theorem C10_stable_order:
  "filter (\<lambda>m. score m = s) (computeMatches creators hotels) =
     filter (\<lambda>m. score m = s) (allMatches creators hotels) \<and>
   map (\<lambda>m. (creator m, hotel m)) (allMatches creators hotels) = List.product creators hotels"
  using computeMatches_stable allMatches_endpoints by blast

text \<open>The claim at two creators with the same score: the first creator of the input stays
  first.\<close>

theorem C10_stable_order_witness:
  "map (\<lambda>m. (creator m, hotel m))
     (filter (\<lambda>m. score m = Number 99)
        (computeMatches [(described ''spa'')\<lparr>rating := Some ''1''\<rparr>,
                         (described ''spa'')\<lparr>rating := Some ''2''\<rparr>] [described ''spa''])) =
   List.product [(described ''spa'')\<lparr>rating := Some ''1''\<rparr>,
                 (described ''spa'')\<lparr>rating := Some ''2''\<rparr>] [described ''spa'']"
proof -
  let ?cs = "[(described ''spa'')\<lparr>rating := Some ''1''\<rparr>, (described ''spa'')\<lparr>rating := Some ''2''\<rparr>]"
  let ?hs = "[described ''spa'']"
  from map_eq_two[OF example_tie_scores] obtain m1 m2 where
    "computeMatches ?cs ?hs = [m1, m2]" and "score m1 = Number 99" "score m2 = Number 99" by blast
  then have "\<forall>m\<in>set (computeMatches ?cs ?hs). score m = Number 99" by simp
  then have "\<forall>m\<in>set (allMatches ?cs ?hs). score m = Number 99"
    by (simp add: set_computeMatches)
  then have "filter (\<lambda>m. score m = Number 99) (allMatches ?cs ?hs) = allMatches ?cs ?hs"
    by (simp add: filter_id_conv)
  with C10_stable_order[of "Number 99" ?cs ?hs] show ?thesis by simp
qed

end
